theory Spec2Isabelle
  imports Main
begin

section \<open>Role hierarchy and capability table (auth-utils)\<close>

text \<open>
  The Prisma enum \<open>UserRole\<close> has exactly three members. TypeScript's type
  excludes every other string, so the \<open>default:\<close> branch of
  \<open>getUserPermissions\<close> is unreachable and has no counterpart here.
\<close>

datatype UserRole = ROOT_ADMIN | ADMIN | EMPLOYEE

text \<open>The table \<open>roleHierarchy\<close> local to \<open>hasRoleOrHigher\<close>.\<close>

fun roleHierarchy :: "UserRole \<Rightarrow> int" where
  "roleHierarchy EMPLOYEE = 1"
| "roleHierarchy ADMIN = 2"
| "roleHierarchy ROOT_ADMIN = 3"

definition hasRoleOrHigher :: "UserRole \<Rightarrow> UserRole \<Rightarrow> bool" where
  "hasRoleOrHigher userRole requiredRole =
     (roleHierarchy userRole \<ge> roleHierarchy requiredRole)"

record Permissions =
  canViewDashboard :: bool
  canAccessProjects :: bool
  canCreateProjects :: bool
  canManageUsers :: bool
  canAccessSystemSettings :: bool
  canDeleteProjects :: bool

definition basePermissions :: Permissions where
  "basePermissions =
     \<lparr> canViewDashboard = True,
       canAccessProjects = False,
       canCreateProjects = False,
       canManageUsers = False,
       canAccessSystemSettings = False,
       canDeleteProjects = False \<rparr>"

fun getUserPermissions :: "UserRole \<Rightarrow> Permissions" where
  "getUserPermissions ROOT_ADMIN =
     basePermissions
       \<lparr> canAccessProjects := True,
         canCreateProjects := True,
         canManageUsers := True,
         canAccessSystemSettings := True,
         canDeleteProjects := True \<rparr>"
| "getUserPermissions ADMIN =
     basePermissions
       \<lparr> canAccessProjects := True,
         canCreateProjects := True,
         canManageUsers := True,
         canDeleteProjects := True \<rparr>"
| "getUserPermissions EMPLOYEE =
     basePermissions \<lparr> canAccessProjects := True \<rparr>"

section \<open>Account lockout and rate limiting (auth)\<close>

text \<open>
  Instants are milliseconds since the epoch, as \<open>Date.now()\<close> and the value of a
  \<open>Date\<close> are; they are integers far below \<open>2^53\<close>, so the arithmetic of the source
  on them is exact and \<open>int\<close> models it. A nullable \<open>DateTime\<close> column is an
  \<open>int option\<close>.
\<close>

subsection \<open>Configuration: \<open>ACCOUNT_LOCKOUT\<close>\<close>

definition MAX_ATTEMPTS :: int where
  "MAX_ATTEMPTS = 10"

definition LOCKOUT_DURATION_HOURS :: int where
  "LOCKOUT_DURATION_HOURS = 1"

definition RATE_LIMIT_WINDOW_MINUTES :: int where
  "RATE_LIMIT_WINDOW_MINUTES = 5"

definition RATE_LIMIT_MAX_ATTEMPTS :: int where
  "RATE_LIMIT_MAX_ATTEMPTS = 5"

subsection \<open>State\<close>

text \<open>
  A row of the \<open>User\<close> table of the Prisma schema (the columns the login code reads
  or writes). The primary key is called \<open>user_id\<close> here because \<open>id\<close> is the
  identity function of HOL.
\<close>

record User =
  user_id :: string
  email :: string
  passwordHash :: string
  role :: UserRole
  name :: string
  lastLogin :: "int option"
  failedLoginAttempts :: int
  lockedUntil :: "int option"

text \<open>A value of the module-level \<open>rateLimitStore\<close> map.\<close>

record RateEntry =
  attempts :: int
  resetTime :: int

text \<open>
  What can go wrong in a call of the Prisma client: the store does not answer, or
  \<open>update\<close> finds no row for its \<open>where\<close> clause.
\<close>

datatype fault = StoreUnavailable | RecordNotFound

text \<open>
  The effects of \<open>authorize\<close> other than its writes to the two stores, in the order
  they happen: console output, the call of \<open>bcrypt.compare\<close> (plaintext, hash), and
  the \<open>setTimeout\<close> wait in milliseconds.
\<close>

datatype event =
    ConsoleWarn string
  | ConsoleError fault
  | BcryptCompare string string
  | Delay int

text \<open>
  Everything the login code reads and writes: the \<open>User\<close> table keyed by its unique
  \<open>email\<close> column, the in-memory \<open>rateLimitStore\<close>, the effects so far, and the
  schedule of storage faults: each call of the Prisma client takes the head of
  \<open>faults\<close>, and throws without touching the table when it is \<open>True\<close>; an empty
  schedule is a store that always answers.
\<close>

record world =
  users :: "string \<rightharpoonup> User"
  rateLimitStore :: "string \<rightharpoonup> RateEntry"
  faults :: "bool list"
  trace :: "event list"

subsection \<open>The Prisma client calls the login code makes\<close>

text \<open>
  One round trip to the store: the head of the fault schedule says whether it fails.
\<close>

definition store_call :: "world \<Rightarrow> bool \<times> world" where
  "store_call w =
     (case faults w of
        [] \<Rightarrow> (False, w)
      | f # fs \<Rightarrow> (f, w\<lparr>faults := fs\<rparr>))"

text \<open>
  \<open>db.user.findUnique({ where: { email } })\<close>: the row, or null. Which columns are
  selected makes no difference to the callers below.
\<close>

definition findUnique :: "string \<Rightarrow> world \<Rightarrow> (fault + User option) \<times> world" where
  "findUnique em w =
     (case store_call w of
        (True, w1) \<Rightarrow> (Inl StoreUnavailable, w1)
      | (False, w1) \<Rightarrow> (Inr (users w1 em), w1))"

text \<open>
  \<open>db.user.update({ where: { email }, data })\<close>: \<open>data\<close> is the function applied to
  the row; Prisma throws when no row matches.
\<close>

definition update :: "string \<Rightarrow> (User \<Rightarrow> User) \<Rightarrow> world \<Rightarrow> (fault + unit) \<times> world" where
  "update em data w =
     (case store_call w of
        (True, w1) \<Rightarrow> (Inl StoreUnavailable, w1)
      | (False, w1) \<Rightarrow>
          (case users w1 em of
             None \<Rightarrow> (Inl RecordNotFound, w1)
           | Some u \<Rightarrow> (Inr (), w1\<lparr>users := (users w1)(em \<mapsto> data u)\<rparr>)))"

subsection \<open>Account lockout\<close>

text \<open>
  \<open>isAccountLocked\<close> reads the clock twice (\<open>new Date()\<close> in each of its two
  conditions): \<open>now1\<close> is the first reading, \<open>now2\<close> the second.
\<close>

definition isAccountLocked :: "int \<Rightarrow> int \<Rightarrow> string \<Rightarrow> world \<Rightarrow> (fault + bool) \<times> world" where
  "isAccountLocked now1 now2 em w =
     (case findUnique em w of
        (Inl e, w1) \<Rightarrow> (Inl e, w1)
      | (Inr None, w1) \<Rightarrow> (Inr False, w1)
      | (Inr (Some user), w1) \<Rightarrow>
          (case lockedUntil user of
             None \<Rightarrow> (Inr False, w1)
           | Some t \<Rightarrow>
               if now1 < t then (Inr True, w1)
               else if now2 \<ge> t then
                 (case update em (\<lambda>u. u\<lparr>failedLoginAttempts := 0, lockedUntil := None\<rparr>) w1 of
                    (Inl e, w2) \<Rightarrow> (Inl e, w2)
                  | (Inr _, w2) \<Rightarrow> (Inr False, w2))
               else (Inr False, w1)))"

definition handleFailedLogin :: "int \<Rightarrow> string \<Rightarrow> world \<Rightarrow> (fault + unit) \<times> world" where
  "handleFailedLogin now em w =
     (case findUnique em w of
        (Inl e, w1) \<Rightarrow> (Inl e, w1)
      | (Inr None, w1) \<Rightarrow> (Inr (), w1)
      | (Inr (Some user), w1) \<Rightarrow>
          update em
            (\<lambda>u. u\<lparr>failedLoginAttempts := failedLoginAttempts user + 1,
                  lockedUntil :=
                    (if failedLoginAttempts user + 1 \<ge> MAX_ATTEMPTS
                     then Some (now + LOCKOUT_DURATION_HOURS * 60 * 60 * 1000)
                     else None)\<rparr>)
            w1)"

definition handleSuccessfulLogin :: "int \<Rightarrow> string \<Rightarrow> world \<Rightarrow> (fault + unit) \<times> world" where
  "handleSuccessfulLogin now em w =
     update em (\<lambda>u. u\<lparr>failedLoginAttempts := 0, lockedUntil := None, lastLogin := Some now\<rparr>) w"

subsection \<open>Rate limiting\<close>

definition checkRateLimit :: "int \<Rightarrow> string \<Rightarrow> world \<Rightarrow> bool \<times> world" where
  "checkRateLimit now ip w =
     (case rateLimitStore w (''login_'' @ ip) of
        None \<Rightarrow>
          (True, w\<lparr>rateLimitStore := (rateLimitStore w)(''login_'' @ ip \<mapsto>
             \<lparr>attempts = 1, resetTime = now + RATE_LIMIT_WINDOW_MINUTES * 60 * 1000\<rparr>)\<rparr>)
      | Some current \<Rightarrow>
          if now > resetTime current then
            (True, w\<lparr>rateLimitStore := (rateLimitStore w)(''login_'' @ ip \<mapsto>
               \<lparr>attempts = 1, resetTime = now + RATE_LIMIT_WINDOW_MINUTES * 60 * 1000\<rparr>)\<rparr>)
          else if attempts current \<ge> RATE_LIMIT_MAX_ATTEMPTS then (False, w)
          else
            (True, w\<lparr>rateLimitStore := (rateLimitStore w)(''login_'' @ ip \<mapsto>
               current\<lparr>attempts := attempts current + 1\<rparr>)\<rparr>))"

text \<open>
  A run of \<open>checkRateLimit\<close> calls from one source, one call per clock reading of the
  list: the answers in order, and the state after the last call.
\<close>

fun checkRateLimit_calls :: "int list \<Rightarrow> string \<Rightarrow> world \<Rightarrow> bool list \<times> world" where
  "checkRateLimit_calls [] ip w = ([], w)"
| "checkRateLimit_calls (now # nows) ip w =
     (case checkRateLimit now ip w of
        (b, w1) \<Rightarrow> (case checkRateLimit_calls nows ip w1 of (bs, w2) \<Rightarrow> (b # bs, w2)))"

text \<open>
  A run of \<open>handleFailedLogin\<close> calls on one account, one call per clock reading of
  the list; a fault ends the run, as the exception would.
\<close>

fun handleFailedLogin_calls :: "int list \<Rightarrow> string \<Rightarrow> world \<Rightarrow> (fault + unit) \<times> world" where
  "handleFailedLogin_calls [] em w = (Inr (), w)"
| "handleFailedLogin_calls (now # nows) em w =
     (case handleFailedLogin now em w of
        (Inl e, w1) \<Rightarrow> (Inl e, w1)
      | (Inr _, w1) \<Rightarrow> handleFailedLogin_calls nows em w1)"

subsection \<open>Input validation: \<open>LoginSchema\<close>\<close>

text \<open>
  A JavaScript string is modelled as a \<open>string\<close> whose characters are its code
  units, restricted to the 8-bit range of HOL's \<open>char\<close>. \<open>toLowerCase\<close> and
  \<open>trim\<close> are the built-ins on that range: the letters A to Z and the capital
  letters of Latin-1 (code units 192 to 222 without the multiplication sign 215) are
  lowered, and the white space is tab, line feed, vertical tab, form feed, carriage
  return, space and no-break space.
\<close>

definition toLowerCase :: "string \<Rightarrow> string" where
  "toLowerCase s =
     map (\<lambda>c. if (65 \<le> (of_char c :: nat) \<and> (of_char c :: nat) \<le> 90)
                  \<or> (192 \<le> (of_char c :: nat) \<and> (of_char c :: nat) \<le> 222
                      \<and> (of_char c :: nat) \<noteq> 215)
               then char_of ((of_char c :: nat) + 32) else c) s"

definition isWhiteSpace :: "char \<Rightarrow> bool" where
  "isWhiteSpace c = ((of_char c :: nat) \<in> {9, 10, 11, 12, 13, 32, 160})"

definition trim :: "string \<Rightarrow> string" where
  "trim s = rev (dropWhile isWhiteSpace (rev (dropWhile isWhiteSpace s)))"

text \<open>
  The two library primitives the login code calls and the repository does not
  contain: the e-mail pattern of zod's \<open>.email()\<close> check, and \<open>bcrypt.compare\<close>
  (plaintext, hash). Both are parameters of the model.
\<close>

record Ext =
  zod_email :: "string \<Rightarrow> bool"
  bcrypt_compare :: "string \<Rightarrow> string \<Rightarrow> bool"

text \<open>The \<open>credentials\<close> argument of \<open>authorize\<close>, when it is not undefined.\<close>

datatype Credentials = Credentials (cred_email: string) (cred_password: string)

text \<open>
  \<open>LoginSchema.safeParse\<close>: zod runs the checks of a string schema in the order
  they are chained, so \<open>min(1)\<close> and \<open>email()\<close> see the raw input and the result is
  lowered, then trimmed. \<open>None\<close> is \<open>success: false\<close>; otherwise the parsed
  \<open>(email, password)\<close>.
\<close>

definition LoginSchema_safeParse :: "Ext \<Rightarrow> Credentials option \<Rightarrow> (string \<times> string) option" where
  "LoginSchema_safeParse ext credentials =
     (case credentials of
        None \<Rightarrow> None
      | Some c \<Rightarrow>
          if length (cred_email c) \<ge> 1 \<and> zod_email ext (cred_email c)
             \<and> length (cred_password c) \<ge> 1 \<and> length (cred_password c) \<le> 128
          then Some (trim (toLowerCase (cred_email c)), cred_password c)
          else None)"

subsection \<open>The credentials provider: \<open>authorize\<close>\<close>

text \<open>
  The parts of the request \<open>authorize\<close> looks at: the two headers and the socket's
  remote address, each possibly absent. JavaScript's \<open>||\<close> skips undefined and the
  empty string.
\<close>

record Request =
  x_forwarded_for :: "string option"
  x_real_ip :: "string option"
  remoteAddress :: "string option"

definition js_or :: "string option \<Rightarrow> string \<Rightarrow> string" where
  "js_or v d = (case v of None \<Rightarrow> d | Some s \<Rightarrow> if s = [] then d else s)"

definition clientIP :: "Request option \<Rightarrow> string" where
  "clientIP req =
     (case req of
        None \<Rightarrow> ''unknown''
      | Some r \<Rightarrow>
          js_or (x_forwarded_for r) (js_or (x_real_ip r) (js_or (remoteAddress r) ''unknown'')))"

text \<open>
  The clock readings of one \<open>authorize\<close> call, one per place where the code reads
  the clock: in \<open>checkRateLimit\<close>, twice in \<open>isAccountLocked\<close>, in
  \<open>handleFailedLogin\<close> and in \<open>handleSuccessfulLogin\<close>.
\<close>

record Clock =
  tRate :: int
  tLock1 :: int
  tLock2 :: int
  tFail :: int
  tSuccess :: int

text \<open>The object \<open>authorize\<close> returns on success.\<close>

datatype SessionUser =
  SessionUser (su_id: string) (su_email: string) (su_name: string) (su_role: UserRole)

definition emit :: "event \<Rightarrow> world \<Rightarrow> world" where
  "emit ev w = w\<lparr>trace := trace w @ [ev]\<rparr>"

text \<open>The call \<open>bcrypt.compare(password, user.passwordHash)\<close>, recorded in the trace.\<close>

definition bcrypt_call :: "Ext \<Rightarrow> string \<Rightarrow> string \<Rightarrow> world \<Rightarrow> bool \<times> world" where
  "bcrypt_call ext password hash w =
     (bcrypt_compare ext password hash, emit (BcryptCompare password hash) w)"

text \<open>
  The body of the \<open>try\<close> block. \<open>Inl\<close> is an exception leaving the block,
  \<open>Inr None\<close> is \<open>return null\<close>.
\<close>

definition authorize_try ::
  "Ext \<Rightarrow> Clock \<Rightarrow> Credentials option \<Rightarrow> Request option \<Rightarrow> world
     \<Rightarrow> (fault + SessionUser option) \<times> world" where
  "authorize_try ext clk credentials req w =
     (case LoginSchema_safeParse ext credentials of
        None \<Rightarrow> (Inr None, w)
      | Some (em, password) \<Rightarrow>
          (case checkRateLimit (tRate clk) (clientIP req) w of
             (False, w1) \<Rightarrow>
               (Inr None, emit (ConsoleWarn (''Rate limit exceeded for IP: '' @ clientIP req)) w1)
           | (True, w1) \<Rightarrow>
               (case isAccountLocked (tLock1 clk) (tLock2 clk) em w1 of
                  (Inl e, w2) \<Rightarrow> (Inl e, w2)
                | (Inr True, w2) \<Rightarrow>
                    (Inr None, emit (ConsoleWarn (''Login attempt on locked account: '' @ em)) w2)
                | (Inr False, w2) \<Rightarrow>
                    (case findUnique em w2 of
                       (Inl e, w3) \<Rightarrow> (Inl e, w3)
                     | (Inr None, w3) \<Rightarrow> (Inr None, emit (Delay 100) w3)
                     | (Inr (Some user), w3) \<Rightarrow>
                         (case bcrypt_call ext password (passwordHash user) w3 of
                            (False, w4) \<Rightarrow>
                              (case handleFailedLogin (tFail clk) em w4 of
                                 (Inl e, w5) \<Rightarrow> (Inl e, w5)
                               | (Inr _, w5) \<Rightarrow> (Inr None, w5))
                          | (True, w4) \<Rightarrow>
                              (case handleSuccessfulLogin (tSuccess clk) em w4 of
                                 (Inl e, w5) \<Rightarrow> (Inl e, w5)
                               | (Inr _, w5) \<Rightarrow>
                                   (Inr (Some (SessionUser (user_id user) (email user)
                                                 (name user) (role user))), w5)))))))"

text \<open>
  \<open>authorize\<close>: the \<open>try\<close> block with its \<open>catch\<close>, which logs the error and
  returns null. The result type keeps the \<open>Inl\<close> side, so that "an exception reaches
  the caller" can be stated.
\<close>

definition authorize ::
  "Ext \<Rightarrow> Clock \<Rightarrow> Credentials option \<Rightarrow> Request option \<Rightarrow> world
     \<Rightarrow> (fault + SessionUser option) \<times> world" where
  "authorize ext clk credentials req w =
     (case authorize_try ext clk credentials req w of
        (Inl e, w1) \<Rightarrow> (Inr None, emit (ConsoleError e) w1)
      | (Inr r, w1) \<Rightarrow> (Inr r, w1))"

text \<open>How many times \<open>bcrypt.compare\<close> has been called.\<close>

definition compares :: "event list \<Rightarrow> nat" where
  "compares evs = length (filter (\<lambda>ev. case ev of BcryptCompare _ _ \<Rightarrow> True | _ \<Rightarrow> False) evs)"

section \<open>Session configuration (authOptions)\<close>

text \<open>
  The \<open>session\<close> and \<open>jwt\<close> blocks of \<open>authOptions\<close>, in seconds, with the
  products written as in the source.
\<close>

record SessionConfig =
  maxAge :: int
  updateAge :: int

definition session :: SessionConfig where
  "session = \<lparr> maxAge = 24 * 60 * 60, updateAge = 60 * 60 \<rparr>"

definition jwt_maxAge :: int where
  "jwt_maxAge = 24 * 60 * 60"

subsection \<open>Session claims\<close>

text \<open>
  A session claim: account id, role, e-mail, name, and the instants of issue and of
  expiry, in seconds as the configuration is.
\<close>

record SessionClaim =
  claim_id :: string
  claim_role :: UserRole
  claim_email :: string
  claim_name :: string
  issuedAt :: int
  expiresAt :: int

text \<open>
  Modelled from the spec: the session issuer (\<open>issue\<close>, \<open>renew\<close> and the validity
  of a claim) is the next-auth library, which the repository configures through
  \<open>authOptions\<close> and does not contain. \<open>issue\<close> mints a claim that expires at
  issued-at plus the session lifetime.
\<close>

definition issue :: "SessionConfig \<Rightarrow> int \<Rightarrow> SessionUser \<Rightarrow> SessionClaim" where
  "issue cfg now u =
     \<lparr>claim_id = su_id u, claim_role = su_role u, claim_email = su_email u,
      claim_name = su_name u, issuedAt = now, expiresAt = now + maxAge cfg\<rparr>"

text \<open>
  Modelled from the spec: a claim issued at T is valid up to T plus the lifetime and
  expired strictly after.
\<close>

definition expired :: "int \<Rightarrow> SessionClaim \<Rightarrow> bool" where
  "expired now c = (expiresAt c < now)"

text \<open>
  Modelled from the spec: renewal is permitted only while the claim is unexpired and
  within the refresh window, that is once more than the configured refresh age has
  elapsed since issue.
\<close>

definition renewal_permitted :: "SessionConfig \<Rightarrow> int \<Rightarrow> SessionClaim \<Rightarrow> bool" where
  "renewal_permitted cfg now c = (\<not> expired now c \<and> updateAge cfg < now - issuedAt c)"

datatype renew_error = Expired

text \<open>
  Modelled from the spec: \<open>renew\<close> answers \<open>Expired\<close> for an expired claim, mints a
  new claim (the old one is not mutated) when renewal is permitted, and hands back the
  claim it was given otherwise.
\<close>

definition renew :: "SessionConfig \<Rightarrow> int \<Rightarrow> SessionClaim \<Rightarrow> renew_error + SessionClaim" where
  "renew cfg now c =
     (if expired now c then Inl Expired
      else if renewal_permitted cfg now c
      then Inr (c\<lparr>issuedAt := now, expiresAt := now + maxAge cfg\<rparr>)
      else Inr c)"

section \<open>The lockout invariant\<close>

text \<open>
  The invariant of the data model on the account stored under key \<open>k\<close>: its
  lockout expiry is set only while its failed-attempt counter is at or above the
  threshold.
\<close>

definition lockout_inv :: "world \<Rightarrow> string \<Rightarrow> bool" where
  "lockout_inv w k =
     (case users w k of
        None \<Rightarrow> True
      | Some u \<Rightarrow> lockedUntil u \<noteq> None \<longrightarrow> failedLoginAttempts u \<ge> MAX_ATTEMPTS)"

section \<open>Storage faults met by a call\<close>

text \<open>
  What a step from \<open>w\<close> to \<open>w'\<close> used up of the fault schedule, and the effects it
  added to the trace. A step made of store calls takes entries from the front of the
  schedule, one per call; \<open>consumed\<close> is that front part, and a \<open>True\<close> in it is a
  store call that failed during the step.
\<close>

definition consumed :: "world \<Rightarrow> world \<Rightarrow> bool list" where
  "consumed w w' = take (length (faults w) - length (faults w')) (faults w)"

definition new_events :: "world \<Rightarrow> world \<Rightarrow> event list" where
  "new_events w w' = drop (length (trace w)) (trace w')"

text \<open>
  The step used up a front part of the schedule, and \<open>b\<close> says whether a store call
  failed in it.
\<close>

definition schedule_used :: "world \<Rightarrow> bool \<Rightarrow> world \<Rightarrow> bool" where
  "schedule_used w b w' =
     (faults w = consumed w w' @ faults w' \<and> (True \<in> set (consumed w w')) = b)"

section \<open>Sample states\<close>

text \<open>
  Concrete states and inputs on which the theorems below are exercised. The two
  library primitives are replaced by stand-ins: an e-mail pattern that asks for an
  \<open>@\<close>, and a hash comparison that accepts the hash \<open>hash:\<close> followed by the
  password.
\<close>

definition world0 :: world where
  "world0 = \<lparr>users = Map.empty, rateLimitStore = Map.empty, faults = [], trace = []\<rparr>"

definition spent_world :: world where
  "spent_world =
     world0\<lparr>rateLimitStore := [''login_10.0.0.1'' \<mapsto> \<lparr>attempts = 5, resetTime = 301000\<rparr>]\<rparr>"

definition alice :: User where
  "alice = \<lparr>user_id = ''u-1'', email = ''alice@example.com'', passwordHash = ''hash:secret'',
            role = EMPLOYEE, name = ''Alice'', lastLogin = None,
            failedLoginAttempts = 0, lockedUntil = None\<rparr>"

definition alice_world :: world where
  "alice_world = world0\<lparr>users := [''alice@example.com'' \<mapsto> alice]\<rparr>"

definition locked_world :: world where
  "locked_world =
     world0\<lparr>users := [''alice@example.com'' \<mapsto>
       alice\<lparr>failedLoginAttempts := 10, lockedUntil := Some 3600000\<rparr>]\<rparr>"

definition faulty_world :: world where
  "faulty_world = alice_world\<lparr>faults := [True]\<rparr>"

definition late_fault_world :: world where
  "late_fault_world = alice_world\<lparr>faults := [False, False, True, False]\<rparr>"

definition sample_ext :: Ext where
  "sample_ext = \<lparr>zod_email = (\<lambda>s. CHR ''@'' \<in> set s),
                  bcrypt_compare = (\<lambda>password hash. hash = ''hash:'' @ password)\<rparr>"

definition clock0 :: Clock where
  "clock0 = \<lparr>tRate = 1000, tLock1 = 1001, tLock2 = 1002, tFail = 1003, tSuccess = 1004\<rparr>"

definition request0 :: Request where
  "request0 = \<lparr>x_forwarded_for = Some ''10.0.0.1'', x_real_ip = None, remoteAddress = None\<rparr>"

section \<open>Properties of the role hierarchy\<close>

text \<open>
  C9. \<open>hasRoleOrHigher actual required\<close> is true exactly when the rank of
  \<open>actual\<close> is at least the rank of \<open>required\<close>, under the ranking
  EMPLOYEE = 1, ADMIN = 2, ROOT_ADMIN = 3. In particular a root admin passes for
  ADMIN, an employee does not, and every role passes for itself.
\<close>

theorem hasRoleOrHigher_rank:
  "roleHierarchy EMPLOYEE = 1 \<and> roleHierarchy ADMIN = 2 \<and> roleHierarchy ROOT_ADMIN = 3
   \<and> hasRoleOrHigher actual required = (roleHierarchy required \<le> roleHierarchy actual)
   \<and> hasRoleOrHigher ROOT_ADMIN ADMIN
   \<and> \<not> hasRoleOrHigher EMPLOYEE ADMIN
   \<and> hasRoleOrHigher x x"
  by (simp add: hasRoleOrHigher_def)

text \<open>
  C10. The capability table is monotone in the role hierarchy: when
  \<open>hasRoleOrHigher r1 r2\<close> holds, every flag set for \<open>r2\<close> is set for \<open>r1\<close>;
  and \<open>canViewDashboard\<close> is set for every role.
\<close>

theorem getUserPermissions_monotone:
  "(hasRoleOrHigher r1 r2 \<longrightarrow>
      (canViewDashboard (getUserPermissions r2) \<longrightarrow> canViewDashboard (getUserPermissions r1))
    \<and> (canAccessProjects (getUserPermissions r2) \<longrightarrow> canAccessProjects (getUserPermissions r1))
    \<and> (canCreateProjects (getUserPermissions r2) \<longrightarrow> canCreateProjects (getUserPermissions r1))
    \<and> (canManageUsers (getUserPermissions r2) \<longrightarrow> canManageUsers (getUserPermissions r1))
    \<and> (canAccessSystemSettings (getUserPermissions r2) \<longrightarrow>
          canAccessSystemSettings (getUserPermissions r1))
    \<and> (canDeleteProjects (getUserPermissions r2) \<longrightarrow> canDeleteProjects (getUserPermissions r1)))
   \<and> canViewDashboard (getUserPermissions r) = True"
  by (cases r1; cases r2; cases r)
     (simp_all add: hasRoleOrHigher_def basePermissions_def)

theorem getUserPermissions_monotone_witness:
  "hasRoleOrHigher ADMIN EMPLOYEE
   \<and> canAccessProjects (getUserPermissions EMPLOYEE)
   \<and> canAccessProjects (getUserPermissions ADMIN)
   \<and> \<not> canManageUsers (getUserPermissions EMPLOYEE)
   \<and> canViewDashboard (getUserPermissions EMPLOYEE)"
proof -
  have h: "hasRoleOrHigher ADMIN EMPLOYEE"
    by (simp add: hasRoleOrHigher_def)
  have f: "canAccessProjects (getUserPermissions EMPLOYEE)"
    by (simp add: basePermissions_def)
  have g: "\<not> canManageUsers (getUserPermissions EMPLOYEE)"
    by (simp add: basePermissions_def)
  from getUserPermissions_monotone [of ADMIN EMPLOYEE EMPLOYEE] h f g
  show ?thesis by simp
qed

section \<open>Properties of the rate limiter\<close>

lemma checkRateLimit_denied:
  "\<not> fst (checkRateLimit now ip w) \<Longrightarrow> snd (checkRateLimit now ip w) = w"
  by (auto simp: checkRateLimit_def split: option.splits if_splits)

lemma checkRateLimit_fresh:
  "rateLimitStore w (''login_'' @ ip) = Some c \<Longrightarrow> now > resetTime c \<Longrightarrow>
   checkRateLimit now ip w =
     (True, w\<lparr>rateLimitStore := (rateLimitStore w)(''login_'' @ ip \<mapsto>
        \<lparr>attempts = 1, resetTime = now + 5 * 60 * 1000\<rparr>)\<rparr>)"
  by (simp add: checkRateLimit_def RATE_LIMIT_WINDOW_MINUTES_def)

lemma fst_checkRateLimit_calls_Cons:
  "fst (checkRateLimit_calls (t # ts) ip w) =
     fst (checkRateLimit t ip w) # fst (checkRateLimit_calls ts ip (snd (checkRateLimit t ip w)))"
  by (simp split: prod.splits)

text \<open>
  Inside a window whose entry holds \<open>attempts c\<close>, the next \<open>5 - attempts c\<close> calls
  are admitted and all later ones denied.
\<close>

lemma calls_in_window:
  "rateLimitStore w (''login_'' @ ip) = Some c \<Longrightarrow> \<forall>t \<in> set ts. t \<le> resetTime c \<Longrightarrow>
   fst (checkRateLimit_calls ts ip w) =
     replicate (min (nat (5 - attempts c)) (length ts)) True
     @ replicate (length ts - nat (5 - attempts c)) False"
proof (induction ts arbitrary: w c)
  case Nil
  then show ?case by simp
next
  case (Cons t ts)
  show ?case
  proof (cases "attempts c \<ge> 5")
    case True
    with Cons.prems have "checkRateLimit t ip w = (False, w)"
      by (simp add: checkRateLimit_def RATE_LIMIT_MAX_ATTEMPTS_def)
    moreover from Cons.prems have "fst (checkRateLimit_calls ts ip w) =
       replicate (min (nat (5 - attempts c)) (length ts)) True
       @ replicate (length ts - nat (5 - attempts c)) False"
      by (intro Cons.IH) auto
    ultimately show ?thesis using True
      by (simp add: fst_checkRateLimit_calls_Cons del: checkRateLimit_calls.simps)
  next
    case False
    let ?c' = "c\<lparr>attempts := attempts c + 1\<rparr>"
    let ?w' = "w\<lparr>rateLimitStore := (rateLimitStore w)(''login_'' @ ip \<mapsto> ?c')\<rparr>"
    from False Cons.prems have step: "checkRateLimit t ip w = (True, ?w')"
      by (simp add: checkRateLimit_def RATE_LIMIT_MAX_ATTEMPTS_def)
    have "fst (checkRateLimit_calls ts ip ?w') =
       replicate (min (nat (5 - attempts ?c')) (length ts)) True
       @ replicate (length ts - nat (5 - attempts ?c')) False"
      using Cons.prems by (intro Cons.IH) auto
    moreover from False have "nat (5 - attempts c) = Suc (nat (5 - attempts ?c'))"
      by simp
    ultimately show ?thesis using step
      by (simp add: fst_checkRateLimit_calls_Cons del: checkRateLimit_calls.simps)
  qed
qed

text \<open>
  C3. For every source key: when the call at \<open>t0\<close> opens a window (no entry for the
  key, or \<open>t0\<close> past the stored reset instant) and every later call of the run comes
  no later than that window's reset instant \<open>t0 + 5 min\<close>, the answers are \<open>True\<close>
  for exactly the first five calls and \<open>False\<close> for all the others. A denied call
  leaves the whole state, so the stored count and reset instant, unchanged. A call
  past the stored reset instant is admitted and installs a fresh window with count 1.
\<close>

theorem checkRateLimit_window:
  "((rateLimitStore w (''login_'' @ ip) = None
      \<or> (\<exists>c. rateLimitStore w (''login_'' @ ip) = Some c \<and> resetTime c < t0))
     \<and> (\<forall>t \<in> set ts. t \<le> t0 + 5 * 60 * 1000)
     \<longrightarrow> fst (checkRateLimit_calls (t0 # ts) ip w) =
           replicate (min 5 (Suc (length ts))) True @ replicate (Suc (length ts) - 5) False)
   \<and> (\<not> fst (checkRateLimit now' ip' w') \<longrightarrow> snd (checkRateLimit now' ip' w') = w')
   \<and> (rateLimitStore w'' (''login_'' @ ip'') = Some c \<and> resetTime c < now''
      \<longrightarrow> fst (checkRateLimit now'' ip'' w'')
          \<and> rateLimitStore (snd (checkRateLimit now'' ip'' w'')) (''login_'' @ ip'') =
              Some \<lparr>attempts = 1, resetTime = now'' + 5 * 60 * 1000\<rparr>)"
proof (intro conjI impI)
  assume a: "(rateLimitStore w (''login_'' @ ip) = None
      \<or> (\<exists>c. rateLimitStore w (''login_'' @ ip) = Some c \<and> resetTime c < t0))
     \<and> (\<forall>t \<in> set ts. t \<le> t0 + 5 * 60 * 1000)"
  let ?e = "\<lparr>attempts = 1, resetTime = t0 + 5 * 60 * 1000\<rparr>"
  let ?w1 = "w\<lparr>rateLimitStore := (rateLimitStore w)(''login_'' @ ip \<mapsto> ?e)\<rparr>"
  from a have first: "checkRateLimit t0 ip w = (True, ?w1)"
    by (auto simp: checkRateLimit_def RATE_LIMIT_WINDOW_MINUTES_def)
  have "fst (checkRateLimit_calls ts ip ?w1) =
     replicate (min (nat (5 - attempts ?e)) (length ts)) True
     @ replicate (length ts - nat (5 - attempts ?e)) False"
    using a by (intro calls_in_window) auto
  then have rest: "fst (checkRateLimit_calls ts ip ?w1) =
     replicate (min 4 (length ts)) True @ replicate (length ts - 4) False"
    by simp
  have "min 5 (Suc (length ts)) = Suc (min 4 (length ts))"
    by simp
  moreover have "Suc (length ts) - 5 = length ts - 4"
    by simp
  ultimately show "fst (checkRateLimit_calls (t0 # ts) ip w) =
      replicate (min 5 (Suc (length ts))) True @ replicate (Suc (length ts) - 5) False"
    using first rest
    by (simp add: fst_checkRateLimit_calls_Cons del: checkRateLimit_calls.simps)
next
  assume "\<not> fst (checkRateLimit now' ip' w')"
  then show "snd (checkRateLimit now' ip' w') = w'"
    by (rule checkRateLimit_denied)
next
  assume "rateLimitStore w'' (''login_'' @ ip'') = Some c \<and> resetTime c < now''"
  then show "fst (checkRateLimit now'' ip'' w'')"
    by (simp add: checkRateLimit_fresh)
next
  assume "rateLimitStore w'' (''login_'' @ ip'') = Some c \<and> resetTime c < now''"
  then show "rateLimitStore (snd (checkRateLimit now'' ip'' w'')) (''login_'' @ ip'') =
              Some \<lparr>attempts = 1, resetTime = now'' + 5 * 60 * 1000\<rparr>"
    by (simp add: checkRateLimit_fresh)
qed

theorem checkRateLimit_window_witness:
  "fst (checkRateLimit_calls [1000, 2000, 3000, 4000, 5000, 301000, 7000] ''10.0.0.1'' world0)
     = [True, True, True, True, True, False, False]
   \<and> \<not> fst (checkRateLimit 301000 ''10.0.0.1'' spent_world)
   \<and> snd (checkRateLimit 301000 ''10.0.0.1'' spent_world) = spent_world
   \<and> fst (checkRateLimit 301001 ''10.0.0.1'' spent_world)
   \<and> rateLimitStore (snd (checkRateLimit 301001 ''10.0.0.1'' spent_world)) ''login_10.0.0.1''
       = Some \<lparr>attempts = 1, resetTime = 601001\<rparr>"
proof -
  have h1: "(rateLimitStore world0 (''login_'' @ ''10.0.0.1'') = None
      \<or> (\<exists>c. rateLimitStore world0 (''login_'' @ ''10.0.0.1'') = Some c \<and> resetTime c < 1000))
     \<and> (\<forall>t \<in> set [2000, 3000, 4000, 5000, 301000, 7000 :: int]. t \<le> 1000 + 5 * 60 * 1000)"
    by (simp add: world0_def)
  have h2: "\<not> fst (checkRateLimit 301000 ''10.0.0.1'' spent_world)"
    by (simp add: spent_world_def world0_def checkRateLimit_def RATE_LIMIT_MAX_ATTEMPTS_def)
  have h3: "rateLimitStore spent_world (''login_'' @ ''10.0.0.1'')
              = Some \<lparr>attempts = 5, resetTime = 301000\<rparr>
            \<and> resetTime \<lparr>attempts = 5, resetTime = 301000\<rparr> < 301001"
    by (simp add: spent_world_def world0_def)
  show ?thesis
    using h1 h2 h3
      checkRateLimit_window [of world0 "''10.0.0.1''" 1000
        "[2000, 3000, 4000, 5000, 301000, 7000]" 301000 "''10.0.0.1''" spent_world
        spent_world "''10.0.0.1''" "\<lparr>attempts = 5, resetTime = 301000\<rparr>" 301001]
    by simp
qed

section \<open>The store calls\<close>

text \<open>With an empty fault schedule every call answers and leaves the schedule empty.\<close>

lemma store_call_ok: "faults w = [] \<Longrightarrow> store_call w = (False, w)"
  by (simp add: store_call_def)

lemma findUnique_ok: "faults w = [] \<Longrightarrow> findUnique em w = (Inr (users w em), w)"
  by (simp add: findUnique_def store_call_ok)

lemma update_ok:
  "faults w = [] \<Longrightarrow> users w em = Some u \<Longrightarrow>
   update em data w = (Inr (), w\<lparr>users := (users w)(em \<mapsto> data u)\<rparr>)"
  by (simp add: update_def store_call_ok)

text \<open>
  In general a call consumes the head of the schedule; these equations give each call
  without a case distinction on pairs.
\<close>

lemma store_call_eq:
  "store_call w = (faults w \<noteq> [] \<and> hd (faults w), w\<lparr>faults := tl (faults w)\<rparr>)"
  by (cases w; cases "faults w") (simp_all add: store_call_def)

lemma findUnique_eq:
  "findUnique em w =
     (if faults w \<noteq> [] \<and> hd (faults w) then Inl StoreUnavailable else Inr (users w em),
      w\<lparr>faults := tl (faults w)\<rparr>)"
  by (simp add: findUnique_def store_call_eq)

lemma update_eq:
  "update em data w =
     (if faults w \<noteq> [] \<and> hd (faults w) then (Inl StoreUnavailable, w\<lparr>faults := tl (faults w)\<rparr>)
      else case users w em of
             None \<Rightarrow> (Inl RecordNotFound, w\<lparr>faults := tl (faults w)\<rparr>)
           | Some u \<Rightarrow> (Inr (), w\<lparr>faults := tl (faults w), users := (users w)(em \<mapsto> data u)\<rparr>))"
  by (simp add: update_def store_call_eq split: option.splits)

lemmas store_eqs = findUnique_eq update_eq

lemma emit_frame [simp]:
  "users (emit ev w) = users w"
  "rateLimitStore (emit ev w) = rateLimitStore w"
  "faults (emit ev w) = faults w"
  "trace (emit ev w) = trace w @ [ev]"
  by (simp_all add: emit_def)

lemma checkRateLimit_frame [simp]:
  "users (snd (checkRateLimit now ip w)) = users w"
  "faults (snd (checkRateLimit now ip w)) = faults w"
  "trace (snd (checkRateLimit now ip w)) = trace w"
  by (simp_all add: checkRateLimit_def split: option.splits)

lemma findUnique_frame [simp]:
  "users (snd (findUnique em w)) = users w"
  "rateLimitStore (snd (findUnique em w)) = rateLimitStore w"
  "trace (snd (findUnique em w)) = trace w"
  by (simp_all add: findUnique_eq)

lemma findUnique_result:
  "fst (findUnique em w) = Inr r \<Longrightarrow> r = users w em"
  by (simp add: findUnique_eq split: if_splits)

lemma compares_append [simp]: "compares (xs @ ys) = compares xs + compares ys"
  by (simp add: compares_def)

lemma compares_single [simp]:
  "compares [ConsoleWarn s] = 0" "compares [ConsoleError e] = 0" "compares [Delay n] = 0"
  "compares [BcryptCompare p h] = 1"
  by (simp_all add: compares_def)

section \<open>Properties of the account lockout\<close>

lemma handleFailedLogin_ok:
  "faults w = [] \<Longrightarrow> users w em = Some u \<Longrightarrow>
   handleFailedLogin now em w =
     (Inr (), w\<lparr>users := (users w)(em \<mapsto>
        u\<lparr>failedLoginAttempts := failedLoginAttempts u + 1,
          lockedUntil := (if failedLoginAttempts u + 1 \<ge> 10
                          then Some (now + 1 * 60 * 60 * 1000) else None)\<rparr>)\<rparr>)"
  by (simp add: handleFailedLogin_def findUnique_ok update_ok MAX_ATTEMPTS_def
        LOCKOUT_DURATION_HOURS_def)

lemma handleFailedLogin_calls_ok:
  "faults w = [] \<Longrightarrow> users w em = Some u \<Longrightarrow>
   \<exists>w' u'. handleFailedLogin_calls ts em w = (Inr (), w') \<and> faults w' = []
      \<and> users w' em = Some u'
      \<and> failedLoginAttempts u' = failedLoginAttempts u + int (length ts)
      \<and> lockedUntil u' =
          (if ts = [] then lockedUntil u
           else if failedLoginAttempts u + int (length ts) \<ge> 10
           then Some (last ts + 1 * 60 * 60 * 1000) else None)"
proof (induction ts arbitrary: w u)
  case Nil
  then show ?case by simp
next
  case (Cons t ts)
  let ?u1 = "u\<lparr>failedLoginAttempts := failedLoginAttempts u + 1,
          lockedUntil := (if failedLoginAttempts u + 1 \<ge> 10
                          then Some (t + 1 * 60 * 60 * 1000) else None)\<rparr>"
  let ?w1 = "w\<lparr>users := (users w)(em \<mapsto> ?u1)\<rparr>"
  from Cons.prems have step: "handleFailedLogin t em w = (Inr (), ?w1)"
    by (rule handleFailedLogin_ok)
  have "faults ?w1 = []" "users ?w1 em = Some ?u1"
    using Cons.prems by simp_all
  from Cons.IH [OF this] obtain w' u' where
    run: "handleFailedLogin_calls ts em ?w1 = (Inr (), w')" and f: "faults w' = []"
    and u': "users w' em = Some u'"
    and cnt: "failedLoginAttempts u' = failedLoginAttempts ?u1 + int (length ts)"
    and lck: "lockedUntil u' =
          (if ts = [] then lockedUntil ?u1
           else if failedLoginAttempts ?u1 + int (length ts) \<ge> 10
           then Some (last ts + 1 * 60 * 60 * 1000) else None)"
    by blast
  from step run have "handleFailedLogin_calls (t # ts) em w = (Inr (), w')"
    by simp
  moreover from cnt have "failedLoginAttempts u' = failedLoginAttempts u + int (length (t # ts))"
    by simp
  moreover from lck have "lockedUntil u' =
          (if failedLoginAttempts u + int (length (t # ts)) \<ge> 10
           then Some (last (t # ts) + 1 * 60 * 60 * 1000) else None)"
    by (cases "ts = []") (simp_all add: add.assoc)
  ultimately show ?case using f u' by simp
qed

lemma isAccountLocked_locked:
  "faults w = [] \<Longrightarrow> users w em = Some u \<Longrightarrow> lockedUntil u = Some t \<Longrightarrow> now1 < t \<Longrightarrow>
   isAccountLocked now1 now2 em w = (Inr True, w)"
  by (simp add: isAccountLocked_def findUnique_ok)

lemma isAccountLocked_not_locked:
  "faults w = [] \<Longrightarrow> users w em = Some u \<Longrightarrow>
   lockedUntil u = None \<or> (\<exists>t. lockedUntil u = Some t \<and> t \<le> now1) \<Longrightarrow>
   fst (isAccountLocked now1 now2 em w) = Inr False"
  by (auto simp: isAccountLocked_def findUnique_ok update_ok)

lemma isAccountLocked_absent_ok:
  "faults w = [] \<Longrightarrow> users w em = None \<Longrightarrow> isAccountLocked now1 now2 em w = (Inr False, w)"
  by (simp add: isAccountLocked_def findUnique_ok)

lemma isAccountLocked_unlocked_ok:
  "faults w = [] \<Longrightarrow> users w em = Some u \<Longrightarrow> lockedUntil u = None \<Longrightarrow>
   isAccountLocked now1 now2 em w = (Inr False, w)"
  by (simp add: isAccountLocked_def findUnique_ok)

lemma isAccountLocked_frame [simp]:
  "rateLimitStore (snd (isAccountLocked now1 now2 em w)) = rateLimitStore w"
  "trace (snd (isAccountLocked now1 now2 em w)) = trace w"
  by (simp_all add: isAccountLocked_def store_eqs split: option.splits)

lemma handleFailedLogin_frame [simp]:
  "rateLimitStore (snd (handleFailedLogin now em w)) = rateLimitStore w"
  "trace (snd (handleFailedLogin now em w)) = trace w"
  by (simp_all add: handleFailedLogin_def store_eqs split: option.splits)

lemma handleSuccessfulLogin_frame [simp]:
  "rateLimitStore (snd (handleSuccessfulLogin now em w)) = rateLimitStore w"
  "trace (snd (handleSuccessfulLogin now em w)) = trace w"
  by (simp_all add: handleSuccessfulLogin_def store_eqs split: option.splits)

lemma isAccountLocked_when_locked:
  "users w em = Some u \<Longrightarrow> lockedUntil u = Some t \<Longrightarrow> now1 < t \<Longrightarrow>
   users (snd (isAccountLocked now1 now2 em w)) = users w
   \<and> fst (isAccountLocked now1 now2 em w) \<noteq> Inr False"
  by (simp add: isAccountLocked_def store_eqs)

lemma isAccountLocked_when_absent:
  "users w em = None \<Longrightarrow>
   users (snd (isAccountLocked now1 now2 em w)) = users w
   \<and> fst (isAccountLocked now1 now2 em w) \<noteq> Inr True"
  by (simp add: isAccountLocked_def store_eqs)

lemma isAccountLocked_expired:
  "users w em = Some u \<Longrightarrow> lockedUntil u = Some t \<Longrightarrow> t \<le> now1 \<Longrightarrow> t \<le> now2 \<Longrightarrow>
   fst (isAccountLocked now1 now2 em w) = Inr b \<Longrightarrow>
   \<not> b \<and> users (snd (isAccountLocked now1 now2 em w)) em
            = Some (u\<lparr>failedLoginAttempts := 0, lockedUntil := None\<rparr>)"
  by (auto simp add: isAccountLocked_def store_eqs split: if_splits)

lemma isAccountLocked_False_user:
  "fst (isAccountLocked now1 now2 em w) = Inr False \<Longrightarrow>
   users (snd (isAccountLocked now1 now2 em w)) em = Some user \<Longrightarrow>
   \<exists>u. users w em = Some u \<and> \<not> (\<exists>t. lockedUntil u = Some t \<and> now1 < t)
     \<and> passwordHash u = passwordHash user"
  by (auto simp: isAccountLocked_def store_eqs split: option.splits if_splits)

lemma handleFailedLogin_when_absent:
  "users w em = None \<Longrightarrow> users (snd (handleFailedLogin now em w)) = users w"
  by (simp add: handleFailedLogin_def store_eqs)

lemma handleSuccessfulLogin_success:
  "fst (handleSuccessfulLogin now em w) = Inr () \<Longrightarrow>
   \<exists>u. users w em = Some u \<and> users (snd (handleSuccessfulLogin now em w)) =
     (users w)(em \<mapsto> u\<lparr>failedLoginAttempts := 0, lockedUntil := None, lastLogin := Some now\<rparr>)"
  by (auto simp add: handleSuccessfulLogin_def store_eqs split: if_splits option.splits)

lemma lockout_inv_frame [simp]:
  "lockout_inv (emit ev w) k = lockout_inv w k"
  "lockout_inv (snd (checkRateLimit now ip w)) k = lockout_inv w k"
  "lockout_inv (snd (findUnique em w)) k = lockout_inv w k"
  by (simp_all add: lockout_inv_def)

lemma isAccountLocked_inv:
  "lockout_inv w k \<Longrightarrow> lockout_inv (snd (isAccountLocked now1 now2 em w)) k"
  by (auto simp add: isAccountLocked_def store_eqs lockout_inv_def split: option.splits)

lemma handleFailedLogin_inv:
  "lockout_inv w k \<Longrightarrow> lockout_inv (snd (handleFailedLogin now em w)) k"
  by (auto simp add: handleFailedLogin_def store_eqs lockout_inv_def split: option.splits)

lemma handleSuccessfulLogin_inv:
  "lockout_inv w k \<Longrightarrow> lockout_inv (snd (handleSuccessfulLogin now em w)) k"
  by (auto simp add: handleSuccessfulLogin_def store_eqs lockout_inv_def split: option.splits)

section \<open>Properties of \<open>authorize\<close>\<close>

text \<open>
  The paths through \<open>authorize\<close>, as a rule: a property holds of the result when it
  holds at the end of each path. The worlds \<open>w1\<close> to \<open>w5\<close> are the states after
  the rate-limit check, the lockout check, the lookup, the hash comparison and the
  final update.
\<close>

lemma authorize_paths:
  assumes invalid: "LoginSchema_safeParse ext credentials = None \<Longrightarrow> R (Inr None, w)"
    and limited: "\<And>em pw w1.
      \<lbrakk>LoginSchema_safeParse ext credentials = Some (em, pw);
       \<not> fst (checkRateLimit (tRate clk) (clientIP req) w);
       w1 = snd (checkRateLimit (tRate clk) (clientIP req) w)\<rbrakk>
      \<Longrightarrow> R (Inr None, emit (ConsoleWarn (''Rate limit exceeded for IP: '' @ clientIP req)) w1)"
    and lock_fault: "\<And>em pw w1 w2 e.
      \<lbrakk>LoginSchema_safeParse ext credentials = Some (em, pw);
       fst (checkRateLimit (tRate clk) (clientIP req) w);
       w1 = snd (checkRateLimit (tRate clk) (clientIP req) w);
       fst (isAccountLocked (tLock1 clk) (tLock2 clk) em w1) = Inl e;
       w2 = snd (isAccountLocked (tLock1 clk) (tLock2 clk) em w1)\<rbrakk>
      \<Longrightarrow> R (Inr None, emit (ConsoleError e) w2)"
    and locked: "\<And>em pw w1 w2.
      \<lbrakk>LoginSchema_safeParse ext credentials = Some (em, pw);
       fst (checkRateLimit (tRate clk) (clientIP req) w);
       w1 = snd (checkRateLimit (tRate clk) (clientIP req) w);
       fst (isAccountLocked (tLock1 clk) (tLock2 clk) em w1) = Inr True;
       w2 = snd (isAccountLocked (tLock1 clk) (tLock2 clk) em w1)\<rbrakk>
      \<Longrightarrow> R (Inr None, emit (ConsoleWarn (''Login attempt on locked account: '' @ em)) w2)"
    and find_fault: "\<And>em pw w1 w2 w3 e.
      \<lbrakk>LoginSchema_safeParse ext credentials = Some (em, pw);
       fst (checkRateLimit (tRate clk) (clientIP req) w);
       w1 = snd (checkRateLimit (tRate clk) (clientIP req) w);
       fst (isAccountLocked (tLock1 clk) (tLock2 clk) em w1) = Inr False;
       w2 = snd (isAccountLocked (tLock1 clk) (tLock2 clk) em w1);
       fst (findUnique em w2) = Inl e; w3 = snd (findUnique em w2)\<rbrakk>
      \<Longrightarrow> R (Inr None, emit (ConsoleError e) w3)"
    and unknown: "\<And>em pw w1 w2 w3.
      \<lbrakk>LoginSchema_safeParse ext credentials = Some (em, pw);
       fst (checkRateLimit (tRate clk) (clientIP req) w);
       w1 = snd (checkRateLimit (tRate clk) (clientIP req) w);
       fst (isAccountLocked (tLock1 clk) (tLock2 clk) em w1) = Inr False;
       w2 = snd (isAccountLocked (tLock1 clk) (tLock2 clk) em w1);
       fst (findUnique em w2) = Inr None; w3 = snd (findUnique em w2)\<rbrakk>
      \<Longrightarrow> R (Inr None, emit (Delay 100) w3)"
    and wrong: "\<And>em pw w1 w2 w3 w4 w5 user.
      \<lbrakk>LoginSchema_safeParse ext credentials = Some (em, pw);
       fst (checkRateLimit (tRate clk) (clientIP req) w);
       w1 = snd (checkRateLimit (tRate clk) (clientIP req) w);
       fst (isAccountLocked (tLock1 clk) (tLock2 clk) em w1) = Inr False;
       w2 = snd (isAccountLocked (tLock1 clk) (tLock2 clk) em w1);
       fst (findUnique em w2) = Inr (Some user); w3 = snd (findUnique em w2);
       \<not> bcrypt_compare ext pw (passwordHash user);
       w4 = emit (BcryptCompare pw (passwordHash user)) w3;
       w5 = snd (handleFailedLogin (tFail clk) em w4)\<rbrakk>
      \<Longrightarrow> R (Inr None,
             case fst (handleFailedLogin (tFail clk) em w4) of
               Inl e \<Rightarrow> emit (ConsoleError e) w5 | Inr _ \<Rightarrow> w5)"
    and right: "\<And>em pw w1 w2 w3 w4 w5 user.
      \<lbrakk>LoginSchema_safeParse ext credentials = Some (em, pw);
       fst (checkRateLimit (tRate clk) (clientIP req) w);
       w1 = snd (checkRateLimit (tRate clk) (clientIP req) w);
       fst (isAccountLocked (tLock1 clk) (tLock2 clk) em w1) = Inr False;
       w2 = snd (isAccountLocked (tLock1 clk) (tLock2 clk) em w1);
       fst (findUnique em w2) = Inr (Some user); w3 = snd (findUnique em w2);
       bcrypt_compare ext pw (passwordHash user);
       w4 = emit (BcryptCompare pw (passwordHash user)) w3;
       w5 = snd (handleSuccessfulLogin (tSuccess clk) em w4)\<rbrakk>
      \<Longrightarrow> R (case fst (handleSuccessfulLogin (tSuccess clk) em w4) of
               Inl e \<Rightarrow> (Inr None, emit (ConsoleError e) w5)
             | Inr _ \<Rightarrow>
                 (Inr (Some (SessionUser (user_id user) (email user) (name user) (role user))),
                  w5))"
  shows "R (authorize ext clk credentials req w)"
proof (cases "LoginSchema_safeParse ext credentials")
  case None
  then have "authorize ext clk credentials req w = (Inr None, w)"
    by (simp add: authorize_def authorize_try_def)
  with invalid [OF None] show ?thesis by simp
next
  case (Some p)
  obtain em pw where p: "p = (em, pw)" by (cases p)
  note parse = Some [unfolded p]
  obtain b w1 where c: "checkRateLimit (tRate clk) (clientIP req) w = (b, w1)"
    by (cases "checkRateLimit (tRate clk) (clientIP req) w")
  obtain l w2 where l: "isAccountLocked (tLock1 clk) (tLock2 clk) em w1 = (l, w2)"
    by (cases "isAccountLocked (tLock1 clk) (tLock2 clk) em w1")
  obtain f w3 where f: "findUnique em w2 = (f, w3)"
    by (cases "findUnique em w2")
  show ?thesis
  proof (cases b)
    case False
    with parse c have "authorize ext clk credentials req w =
        (Inr None, emit (ConsoleWarn (''Rate limit exceeded for IP: '' @ clientIP req)) w1)"
      by (simp add: authorize_def authorize_try_def)
    moreover have "R (Inr None,
        emit (ConsoleWarn (''Rate limit exceeded for IP: '' @ clientIP req)) w1)"
      by (rule limited [OF parse]) (simp_all add: c False)
    ultimately show ?thesis by simp
  next
    case True
    note b = True
    show ?thesis
    proof (cases l)
      case (Inl e)
      with parse c b l have "authorize ext clk credentials req w =
          (Inr None, emit (ConsoleError e) w2)"
        by (simp add: authorize_def authorize_try_def)
      moreover have "R (Inr None, emit (ConsoleError e) w2)"
        by (rule lock_fault [OF parse, where ?w1.0 = w1]) (simp_all add: c b l Inl)
      ultimately show ?thesis by simp
    next
      case (Inr lk)
      note l' = Inr
      show ?thesis
      proof (cases lk)
        case True
        with parse c b l l' have "authorize ext clk credentials req w =
            (Inr None, emit (ConsoleWarn (''Login attempt on locked account: '' @ em)) w2)"
          by (simp add: authorize_def authorize_try_def)
        moreover have "R (Inr None,
            emit (ConsoleWarn (''Login attempt on locked account: '' @ em)) w2)"
          by (rule locked [OF parse, where ?w1.0 = w1]) (simp_all add: c b l l' True)
        ultimately show ?thesis by simp
      next
        case False
        note lk = False
        show ?thesis
        proof (cases f)
          case (Inl e)
          with parse c b l l' lk f have "authorize ext clk credentials req w =
              (Inr None, emit (ConsoleError e) w3)"
            by (simp add: authorize_def authorize_try_def)
          moreover have "R (Inr None, emit (ConsoleError e) w3)"
            by (rule find_fault [OF parse, where ?w1.0 = w1 and ?w2.0 = w2])
               (simp_all add: c b l l' lk f Inl)
          ultimately show ?thesis by simp
        next
          case (Inr uo)
          note f' = Inr
          show ?thesis
          proof (cases uo)
            case None
            with parse c b l l' lk f f' have "authorize ext clk credentials req w =
                (Inr None, emit (Delay 100) w3)"
              by (simp add: authorize_def authorize_try_def)
            moreover have "R (Inr None, emit (Delay 100) w3)"
              by (rule unknown [OF parse, where ?w1.0 = w1 and ?w2.0 = w2])
                 (simp_all add: c b l l' lk f f' None)
            ultimately show ?thesis by simp
          next
            case (Some user)
            define w4 where "w4 = emit (BcryptCompare pw (passwordHash user)) w3"
            show ?thesis
            proof (cases "bcrypt_compare ext pw (passwordHash user)")
              case False
              define w5 where "w5 = snd (handleFailedLogin (tFail clk) em w4)"
              from parse c b l l' lk f f' Some False
              have "authorize ext clk credentials req w =
                  (Inr None,
                   case fst (handleFailedLogin (tFail clk) em w4) of
                     Inl e \<Rightarrow> emit (ConsoleError e) w5
                   | Inr _ \<Rightarrow> w5)"
                by (simp add: authorize_def authorize_try_def bcrypt_call_def w4_def w5_def
                      split: prod.splits sum.splits)
              moreover have "R (Inr None,
                   case fst (handleFailedLogin (tFail clk) em w4) of
                     Inl e \<Rightarrow> emit (ConsoleError e) w5
                   | Inr _ \<Rightarrow> w5)"
                by (rule wrong [OF parse, where ?w1.0 = w1 and ?w2.0 = w2 and ?w3.0 = w3
                      and user = user])
                   (simp_all add: c b l l' lk f f' Some False w4_def w5_def)
              ultimately show ?thesis by simp
            next
              case True
              define w5 where "w5 = snd (handleSuccessfulLogin (tSuccess clk) em w4)"
              from parse c b l l' lk f f' Some True
              have "authorize ext clk credentials req w =
                  (case fst (handleSuccessfulLogin (tSuccess clk) em w4) of
                     Inl e \<Rightarrow> (Inr None, emit (ConsoleError e) w5)
                   | Inr _ \<Rightarrow>
                       (Inr (Some (SessionUser (user_id user) (email user) (name user)
                                     (role user))), w5))"
                by (simp add: authorize_def authorize_try_def bcrypt_call_def w4_def w5_def
                      split: prod.splits sum.splits)
              moreover have "R (case fst (handleSuccessfulLogin (tSuccess clk) em w4) of
                     Inl e \<Rightarrow> (Inr None, emit (ConsoleError e) w5)
                   | Inr _ \<Rightarrow>
                       (Inr (Some (SessionUser (user_id user) (email user) (name user)
                                     (role user))), w5))"
                by (rule right [OF parse, where ?w1.0 = w1 and ?w2.0 = w2 and ?w3.0 = w3
                      and user = user])
                   (simp_all add: c b l l' lk f f' Some True w4_def w5_def)
              ultimately show ?thesis by simp
            qed
          qed
        qed
      qed
    qed
  qed
qed

lemma authorize_never_raises: "fst (authorize ext clk credentials req w) \<noteq> Inl e"
  by (simp add: authorize_def split: prod.splits sum.splits)

lemma authorize_catch:
  "fst (authorize_try ext clk credentials req w) = Inl e \<Longrightarrow>
   authorize ext clk credentials req w =
     (Inr None, emit (ConsoleError e) (snd (authorize_try ext clk credentials req w)))"
  by (cases "authorize_try ext clk credentials req w") (simp add: authorize_def)

lemma authorize_inv:
  "lockout_inv w k \<Longrightarrow> lockout_inv (snd (authorize ext clk credentials req w)) k"
  by (rule authorize_paths [where R = "\<lambda>x. lockout_inv (snd x) k"])
     (simp_all add: isAccountLocked_inv handleFailedLogin_inv handleSuccessfulLogin_inv
        split: sum.splits)

lemma authorize_rateLimitStore:
  "LoginSchema_safeParse ext credentials = Some (em, pw) \<Longrightarrow>
   rateLimitStore (snd (authorize ext clk credentials req w)) =
     rateLimitStore (snd (checkRateLimit (tRate clk) (clientIP req) w))"
  by (rule authorize_paths [where R = "\<lambda>x. rateLimitStore (snd x) =
         rateLimitStore (snd (checkRateLimit (tRate clk) (clientIP req) w))"])
     (simp_all split: sum.splits)

lemma authorize_success:
  "fst (authorize ext clk credentials req w) = Inr (Some su) \<longrightarrow>
   (\<exists>em pw u. LoginSchema_safeParse ext credentials = Some (em, pw)
     \<and> fst (checkRateLimit (tRate clk) (clientIP req) w)
     \<and> users w em = Some u
     \<and> \<not> (\<exists>t. lockedUntil u = Some t \<and> tLock1 clk < t)
     \<and> bcrypt_compare ext pw (passwordHash u))"
proof (rule authorize_paths [where R = "\<lambda>x. fst x = Inr (Some su) \<longrightarrow>
   (\<exists>em pw u. LoginSchema_safeParse ext credentials = Some (em, pw)
     \<and> fst (checkRateLimit (tRate clk) (clientIP req) w)
     \<and> users w em = Some u
     \<and> \<not> (\<exists>t. lockedUntil u = Some t \<and> tLock1 clk < t)
     \<and> bcrypt_compare ext pw (passwordHash u))" and ext = ext and credentials = credentials
     and clk = clk and req = req and w = w], goal_cases)
  case (8 em pw w1 w2 w3 w4 w5 user)
  from 8(6,7) have "users w2 em = Some user"
    by (simp add: findUnique_result [symmetric])
  with 8(4,5) have "\<exists>u. users w1 em = Some u \<and> \<not> (\<exists>t. lockedUntil u = Some t \<and> tLock1 clk < t)
     \<and> passwordHash u = passwordHash user"
    by (auto dest: isAccountLocked_False_user)
  with 8(1,2,3,8) show ?case
    by (auto split: sum.splits)
qed simp_all

lemma authorize_unknown:
  assumes parse: "LoginSchema_safeParse ext credentials = Some (em, pw)"
    and u: "users w em = None"
  shows "fst (authorize ext clk credentials req w) = Inr None
    \<and> users (snd (authorize ext clk credentials req w)) = users w
    \<and> compares (trace (snd (authorize ext clk credentials req w))) = compares (trace w)
    \<and> (fst (checkRateLimit (tRate clk) (clientIP req) w) \<and> faults w = [] \<longrightarrow>
         trace (snd (authorize ext clk credentials req w)) = trace w @ [Delay 100])"
proof -
  let ?w1 = "snd (checkRateLimit (tRate clk) (clientIP req) w)"
  have u1: "users ?w1 em = None"
    using u by simp
  note ab = isAccountLocked_when_absent [OF u1, of "tLock1 clk" "tLock2 clk"]
  have ok: "faults w = [] \<Longrightarrow>
      isAccountLocked (tLock1 clk) (tLock2 clk) em ?w1 = (Inr False, ?w1)"
    using u1 by (simp add: isAccountLocked_absent_ok)
  have ok2: "faults w = [] \<Longrightarrow> findUnique em ?w1 = (Inr None, ?w1)"
    using u1 by (simp add: findUnique_ok)
  show ?thesis
    by (rule authorize_paths [where R = "\<lambda>x. fst x = Inr None
          \<and> users (snd x) = users w
          \<and> compares (trace (snd x)) = compares (trace w)
          \<and> (fst (checkRateLimit (tRate clk) (clientIP req) w) \<and> faults w = [] \<longrightarrow>
               trace (snd x) = trace w @ [Delay 100])"])
       (use parse ab ok ok2 u1 in \<open>auto dest: findUnique_result\<close>)
qed

lemma authorize_wrong_password:
  assumes parse: "LoginSchema_safeParse ext credentials = Some (em, pw)"
    and u: "users w em = Some u" and bad: "\<not> bcrypt_compare ext pw (passwordHash u)"
  shows "fst (authorize ext clk credentials req w) = Inr None"
proof (cases "fst (authorize ext clk credentials req w)")
  case (Inl e)
  then show ?thesis by (simp add: authorize_never_raises)
next
  case (Inr r)
  show ?thesis
  proof (cases r)
    case None
    with Inr show ?thesis by simp
  next
    case (Some su)
    with Inr authorize_success [of ext clk credentials req w su] parse u bad
    show ?thesis by auto
  qed
qed

lemma authorize_wrong_password_unlocked:
  assumes parse: "LoginSchema_safeParse ext credentials = Some (em, pw)"
    and u: "users w em = Some u" and bad: "\<not> bcrypt_compare ext pw (passwordHash u)"
    and l: "lockedUntil u = None"
    and adm: "fst (checkRateLimit (tRate clk) (clientIP req) w)" and f: "faults w = []"
  shows "users (snd (authorize ext clk credentials req w)) em =
           Some (u\<lparr>failedLoginAttempts := failedLoginAttempts u + 1,
                   lockedUntil := (if failedLoginAttempts u + 1 \<ge> 10
                                   then Some (tFail clk + 1 * 60 * 60 * 1000) else None)\<rparr>)
    \<and> trace (snd (authorize ext clk credentials req w)) =
         trace w @ [BcryptCompare pw (passwordHash u)]"
proof -
  let ?w1 = "snd (checkRateLimit (tRate clk) (clientIP req) w)"
  let ?w4 = "emit (BcryptCompare pw (passwordHash u)) ?w1"
  have u1: "users ?w1 em = Some u" and f1: "faults ?w1 = []"
    using u f by simp_all
  have ok: "isAccountLocked (tLock1 clk) (tLock2 clk) em ?w1 = (Inr False, ?w1)"
    using u1 f1 l by (simp add: isAccountLocked_unlocked_ok)
  have ok2: "findUnique em ?w1 = (Inr (Some u), ?w1)"
    using u1 f1 by (simp add: findUnique_ok)
  have ok3: "handleFailedLogin (tFail clk) em ?w4 =
     (Inr (), ?w4\<lparr>users := (users ?w4)(em \<mapsto>
        u\<lparr>failedLoginAttempts := failedLoginAttempts u + 1,
          lockedUntil := (if failedLoginAttempts u + 1 \<ge> 10
                          then Some (tFail clk + 1 * 60 * 60 * 1000) else None)\<rparr>)\<rparr>)"
    using u1 f1 by (intro handleFailedLogin_ok) simp_all
  show ?thesis
    by (rule authorize_paths [where R = "\<lambda>x. users (snd x) em =
           Some (u\<lparr>failedLoginAttempts := failedLoginAttempts u + 1,
                   lockedUntil := (if failedLoginAttempts u + 1 \<ge> 10
                                   then Some (tFail clk + 1 * 60 * 60 * 1000) else None)\<rparr>)
          \<and> trace (snd x) = trace w @ [BcryptCompare pw (passwordHash u)]"])
       (use parse adm bad ok ok2 ok3 in \<open>auto\<close>)
qed

lemma authorize_invalid:
  "LoginSchema_safeParse ext credentials = None \<Longrightarrow>
   authorize ext clk credentials req w = (Inr None, w)"
  by (simp add: authorize_def authorize_try_def)

lemma authorize_success_resets:
  assumes parse: "LoginSchema_safeParse ext credentials = Some (em, pw)"
    and ok: "fst (authorize ext clk credentials req w) = Inr (Some su)"
  shows "map_option failedLoginAttempts (users (snd (authorize ext clk credentials req w)) em)
            = Some 0
       \<and> map_option lockedUntil (users (snd (authorize ext clk credentials req w)) em)
            = Some None"
proof -
  have "fst (authorize ext clk credentials req w) = Inr (Some su) \<longrightarrow>
       map_option failedLoginAttempts (users (snd (authorize ext clk credentials req w)) em)
            = Some 0
       \<and> map_option lockedUntil (users (snd (authorize ext clk credentials req w)) em)
            = Some None"
    by (rule authorize_paths [where R = "\<lambda>x. fst x = Inr (Some su) \<longrightarrow>
            map_option failedLoginAttempts (users (snd x) em) = Some 0
          \<and> map_option lockedUntil (users (snd x) em) = Some None"])
       (use parse in \<open>auto split: sum.splits dest!: handleSuccessfulLogin_success\<close>)
  with ok show ?thesis by simp
qed

section \<open>Storage faults are caught\<close>

text \<open>
  Every operation uses up a front part of the fault schedule and raises
  \<open>StoreUnavailable\<close> exactly when that part holds a fault; \<open>authorize\<close> logs
  the fault exactly then, and returns null.
\<close>

lemma consumed_prefix: "faults w = cs @ faults w' \<Longrightarrow> consumed w w' = cs"
  by (simp add: consumed_def)

lemma schedule_used_iff:
  "schedule_used w b w' = (\<exists>cs. faults w = cs @ faults w' \<and> (True \<in> set cs) = b)"
  by (auto simp: schedule_used_def consumed_prefix)

lemma schedule_used_refl: "faults w' = faults w \<Longrightarrow> schedule_used w False w'"
  by (simp add: schedule_used_iff)

lemma schedule_used_seq:
  "schedule_used w False w1 \<Longrightarrow> schedule_used w1 b w2 \<Longrightarrow> schedule_used w b w2"
  by (fastforce simp: schedule_used_iff)

lemma schedule_used_raise:
  "schedule_used w (Inl e = (Inl StoreUnavailable :: fault + 'a)) w' \<Longrightarrow>
   faults v = faults w \<Longrightarrow> faults v' = faults w' \<Longrightarrow>
   schedule_used v (ConsoleError StoreUnavailable \<in> set [ConsoleError e]) v'"
  by (auto simp: schedule_used_iff)

lemma schedule_used_quiet:
  "schedule_used w False w' \<Longrightarrow> faults v = faults w \<Longrightarrow> faults v' = faults w' \<Longrightarrow>
   schedule_used v False v'"
  by (simp add: schedule_used_iff)

lemma findUnique_schedule:
  "schedule_used w (fst (findUnique em w) = Inl StoreUnavailable) (snd (findUnique em w))"
  unfolding schedule_used_iff
  by (rule exI [of _ "take 1 (faults w)"]) (cases "faults w"; simp add: findUnique_eq)

lemma isAccountLocked_schedule:
  "schedule_used w (fst (isAccountLocked now1 now2 em w) = Inl StoreUnavailable)
     (snd (isAccountLocked now1 now2 em w))"
proof (cases "faults w")
  case Nil
  then show ?thesis
    by (auto simp: schedule_used_def consumed_def isAccountLocked_def store_eqs
        split: option.splits)
next
  case (Cons f fs)
  then show ?thesis
    by (cases fs)
       (auto simp: schedule_used_def consumed_def isAccountLocked_def store_eqs
        split: option.splits)
qed

lemma handleFailedLogin_schedule:
  "schedule_used w (fst (handleFailedLogin now em w) = Inl StoreUnavailable)
     (snd (handleFailedLogin now em w))"
proof (cases "faults w")
  case Nil
  then show ?thesis
    by (auto simp: schedule_used_def consumed_def handleFailedLogin_def store_eqs
        split: option.splits)
next
  case (Cons f fs)
  then show ?thesis
    by (cases fs)
       (auto simp: schedule_used_def consumed_def handleFailedLogin_def store_eqs
        split: option.splits)
qed

lemma handleSuccessfulLogin_schedule:
  "schedule_used w (fst (handleSuccessfulLogin now em w) = Inl StoreUnavailable)
     (snd (handleSuccessfulLogin now em w))"
  by (cases "faults w")
     (auto simp: schedule_used_def consumed_def handleSuccessfulLogin_def store_eqs
        split: option.splits)

lemma authorize_schedule:
  "schedule_used w
     (ConsoleError StoreUnavailable
        \<in> set (new_events w (snd (authorize ext clk credentials req w))))
     (snd (authorize ext clk credentials req w))
   \<and> (ConsoleError StoreUnavailable
        \<in> set (new_events w (snd (authorize ext clk credentials req w)))
      \<longrightarrow> fst (authorize ext clk credentials req w) = Inr None)"
proof (rule authorize_paths [where R = "\<lambda>x.
    schedule_used w (ConsoleError StoreUnavailable \<in> set (new_events w (snd x))) (snd x)
    \<and> (ConsoleError StoreUnavailable \<in> set (new_events w (snd x)) \<longrightarrow> fst x = Inr None)"],
    goal_cases)
  case 1
  show ?case by (simp add: schedule_used_refl new_events_def)
next
  case (2 em pw w1)
  have "trace w1 = trace w" "faults w1 = faults w"
    by (simp_all add: 2(3))
  then show ?case by (simp add: schedule_used_refl new_events_def)
next
  case (3 em pw w1 w2 e)
  have f1: "faults w1 = faults w" and t2: "trace w2 = trace w"
    by (simp_all add: 3(3) 3(5))
  have "schedule_used w1 (Inl e = (Inl StoreUnavailable :: fault + bool)) w2"
    using isAccountLocked_schedule [of w1 "tLock1 clk" "tLock2 clk" em]
    by (simp only: 3(4) 3(5) [symmetric])
  then have "schedule_used w (ConsoleError StoreUnavailable \<in> set [ConsoleError e])
      (emit (ConsoleError e) w2)"
    by (rule schedule_used_raise) (simp_all add: f1)
  with t2 show ?case by (simp add: new_events_def)
next
  case (4 em pw w1 w2)
  have f1: "faults w1 = faults w" and t2: "trace w2 = trace w"
    by (simp_all add: 4(3) 4(5))
  have "schedule_used w1 (Inr True = (Inl StoreUnavailable :: fault + bool)) w2"
    using isAccountLocked_schedule [of w1 "tLock1 clk" "tLock2 clk" em]
    by (simp only: 4(4) 4(5) [symmetric])
  then have "schedule_used w1 False w2" by simp
  then have "schedule_used w False
      (emit (ConsoleWarn (''Login attempt on locked account: '' @ em)) w2)"
    by (rule schedule_used_quiet) (simp_all add: f1)
  with t2 show ?case by (simp add: new_events_def)
next
  case (5 em pw w1 w2 w3 e)
  have f1: "faults w1 = faults w" and t3: "trace w3 = trace w"
    by (simp_all add: 5(3) 5(5) 5(7))
  have "schedule_used w1 (Inr False = (Inl StoreUnavailable :: fault + bool)) w2"
    using isAccountLocked_schedule [of w1 "tLock1 clk" "tLock2 clk" em]
    by (simp only: 5(4) 5(5) [symmetric])
  then have "schedule_used w1 False w2" by simp
  then have a: "schedule_used w False w2"
    by (rule schedule_used_quiet) (simp_all add: f1)
  have "schedule_used w2 (Inl e = (Inl StoreUnavailable :: fault + User option)) w3"
    using findUnique_schedule [of w2 em]
    by (simp only: 5(6) 5(7) [symmetric])
  then have "schedule_used w2 (ConsoleError StoreUnavailable \<in> set [ConsoleError e])
      (emit (ConsoleError e) w3)"
    by (rule schedule_used_raise) simp_all
  from schedule_used_seq [OF a this] t3 show ?case by (simp add: new_events_def)
next
  case (6 em pw w1 w2 w3)
  have f1: "faults w1 = faults w" and t3: "trace w3 = trace w"
    by (simp_all add: 6(3) 6(5) 6(7))
  have "schedule_used w1 (Inr False = (Inl StoreUnavailable :: fault + bool)) w2"
    using isAccountLocked_schedule [of w1 "tLock1 clk" "tLock2 clk" em]
    by (simp only: 6(4) 6(5) [symmetric])
  then have "schedule_used w1 False w2" by simp
  then have a: "schedule_used w False w2"
    by (rule schedule_used_quiet) (simp_all add: f1)
  have "schedule_used w2 (Inr None = (Inl StoreUnavailable :: fault + User option)) w3"
    using findUnique_schedule [of w2 em]
    by (simp only: 6(6) 6(7) [symmetric])
  then have "schedule_used w2 False w3" by simp
  then have "schedule_used w2 False (emit (Delay 100) w3)"
    by (rule schedule_used_quiet) simp_all
  from schedule_used_seq [OF a this] t3 show ?case by (simp add: new_events_def)
next
  case (7 em pw w1 w2 w3 w4 w5 user)
  have f1: "faults w1 = faults w" and t5: "trace w5 = trace w @ [BcryptCompare pw (passwordHash user)]"
    by (simp_all add: 7(3) 7(5) 7(7) 7(9) 7(10))
  have "schedule_used w1 (Inr False = (Inl StoreUnavailable :: fault + bool)) w2"
    using isAccountLocked_schedule [of w1 "tLock1 clk" "tLock2 clk" em]
    by (simp only: 7(4) 7(5) [symmetric])
  then have "schedule_used w1 False w2" by simp
  then have a: "schedule_used w False w2"
    by (rule schedule_used_quiet) (simp_all add: f1)
  have "schedule_used w2 (Inr (Some user) = (Inl StoreUnavailable :: fault + User option)) w3"
    using findUnique_schedule [of w2 em]
    by (simp only: 7(6) 7(7) [symmetric])
  then have "schedule_used w2 False w3" by simp
  then have b: "schedule_used w2 False w4"
    by (rule schedule_used_quiet) (simp_all add: 7(9))
  note ab = schedule_used_seq [OF a b]
  have c: "schedule_used w4 (fst (handleFailedLogin (tFail clk) em w4) = Inl StoreUnavailable) w5"
    using handleFailedLogin_schedule [of w4 "tFail clk" em]
    by (simp only: 7(10) [symmetric])
  show ?case
  proof (cases "fst (handleFailedLogin (tFail clk) em w4)")
    case (Inl e)
    from c have "schedule_used w4 (Inl e = (Inl StoreUnavailable :: fault + unit)) w5"
      by (simp only: Inl)
    then have "schedule_used w4 (ConsoleError StoreUnavailable \<in> set [ConsoleError e])
        (emit (ConsoleError e) w5)"
      by (rule schedule_used_raise) simp_all
    from schedule_used_seq [OF ab this] t5 Inl show ?thesis
      by (simp add: new_events_def)
  next
    case (Inr u)
    from c have "schedule_used w4 False w5"
      by (simp add: Inr)
    from schedule_used_seq [OF ab this] t5 Inr show ?thesis
      by (simp add: new_events_def)
  qed
next
  case (8 em pw w1 w2 w3 w4 w5 user)
  have f1: "faults w1 = faults w" and t5: "trace w5 = trace w @ [BcryptCompare pw (passwordHash user)]"
    by (simp_all add: 8(3) 8(5) 8(7) 8(9) 8(10))
  have "schedule_used w1 (Inr False = (Inl StoreUnavailable :: fault + bool)) w2"
    using isAccountLocked_schedule [of w1 "tLock1 clk" "tLock2 clk" em]
    by (simp only: 8(4) 8(5) [symmetric])
  then have "schedule_used w1 False w2" by simp
  then have a: "schedule_used w False w2"
    by (rule schedule_used_quiet) (simp_all add: f1)
  have "schedule_used w2 (Inr (Some user) = (Inl StoreUnavailable :: fault + User option)) w3"
    using findUnique_schedule [of w2 em]
    by (simp only: 8(6) 8(7) [symmetric])
  then have "schedule_used w2 False w3" by simp
  then have b: "schedule_used w2 False w4"
    by (rule schedule_used_quiet) (simp_all add: 8(9))
  note ab = schedule_used_seq [OF a b]
  have c: "schedule_used w4 (fst (handleSuccessfulLogin (tSuccess clk) em w4) = Inl StoreUnavailable) w5"
    using handleSuccessfulLogin_schedule [of w4 "tSuccess clk" em]
    by (simp only: 8(10) [symmetric])
  show ?case
  proof (cases "fst (handleSuccessfulLogin (tSuccess clk) em w4)")
    case (Inl e)
    from c have "schedule_used w4 (Inl e = (Inl StoreUnavailable :: fault + unit)) w5"
      by (simp only: Inl)
    then have "schedule_used w4 (ConsoleError StoreUnavailable \<in> set [ConsoleError e])
        (emit (ConsoleError e) w5)"
      by (rule schedule_used_raise) simp_all
    from schedule_used_seq [OF ab this] t5 Inl show ?thesis
      by (simp add: new_events_def)
  next
    case (Inr u)
    from c have "schedule_used w4 False w5"
      by (simp add: Inr)
    from schedule_used_seq [OF ab this] t5 Inr show ?thesis
      by (simp add: new_events_def)
  qed
qed

section \<open>Session lifetime\<close>

text \<open>
  C8, as the claim states it, fails: the configured update age is not half the
  configured lifetime (it is 3600 seconds, half the lifetime is 43200 seconds), so a
  claim may be renewed two hours after its issue, long before half its lifetime has
  elapsed.
\<close>

theorem session_updateAge_counterexample:
  "updateAge session = 3600 \<and> maxAge session div 2 = 43200
   \<and> updateAge session \<noteq> maxAge session div 2
   \<and> renewal_permitted session 7200
        (issue session 0 (SessionUser ''u-1'' ''alice@example.com'' ''Alice'' EMPLOYEE))
   \<and> \<not> maxAge session div 2
        < 7200 - issuedAt (issue session 0
                             (SessionUser ''u-1'' ''alice@example.com'' ''Alice'' EMPLOYEE))"
  by (simp add: session_def renewal_permitted_def expired_def issue_def)

text \<open>
  C8, amended. A session claim expires at issued-at plus the session lifetime of 24
  hours (86400 seconds, configured for the session and for the token alike), and
  renewal is permitted only while the claim is unexpired and once more than the
  configured update age has elapsed since its issue; that update age is one hour
  (3600 seconds), one twenty-fourth of the lifetime. \<open>renew\<close> mints a claim with a
  fresh 24-hour lifetime when renewal is permitted, hands the claim back unchanged
  when it is unexpired and renewal is not permitted, and answers \<open>Expired\<close>
  strictly after the expiry.
\<close>

theorem session_lifetime:
  "issuedAt (issue session now u) = now
   \<and> expiresAt (issue session now u) = issuedAt (issue session now u) + 24 * 60 * 60
   \<and> expired t (issue session now u) = (now + 24 * 60 * 60 < t)
   \<and> renewal_permitted session t c = (t \<le> expiresAt c \<and> 60 * 60 < t - issuedAt c)
   \<and> (renewal_permitted session t' c' \<longrightarrow>
        renew session t' c' = Inr (c'\<lparr>issuedAt := t', expiresAt := t' + 24 * 60 * 60\<rparr>))
   \<and> (t'' \<le> expiresAt c'' \<and> \<not> renewal_permitted session t'' c'' \<longrightarrow>
        renew session t'' c'' = Inr c'')
   \<and> (expiresAt cx < tx \<longrightarrow> renew session tx cx = Inl Expired)
   \<and> maxAge session = 86400 \<and> jwt_maxAge = maxAge session
   \<and> updateAge session = 3600 \<and> 24 * updateAge session = maxAge session"
  by (auto simp: session_def jwt_maxAge_def issue_def expired_def renewal_permitted_def
        renew_def)

theorem session_lifetime_witness:
  "expiresAt (issue session 0 (SessionUser ''u-1'' ''alice@example.com'' ''Alice'' EMPLOYEE))
     = 86400
   \<and> renewal_permitted session 3601
        (issue session 0 (SessionUser ''u-1'' ''alice@example.com'' ''Alice'' EMPLOYEE))
   \<and> renew session 3601
        (issue session 0 (SessionUser ''u-1'' ''alice@example.com'' ''Alice'' EMPLOYEE))
       = Inr (issue session 3601 (SessionUser ''u-1'' ''alice@example.com'' ''Alice'' EMPLOYEE))
   \<and> \<not> renewal_permitted session 3600
        (issue session 0 (SessionUser ''u-1'' ''alice@example.com'' ''Alice'' EMPLOYEE))
   \<and> renew session 3600
        (issue session 0 (SessionUser ''u-1'' ''alice@example.com'' ''Alice'' EMPLOYEE))
       = Inr (issue session 0 (SessionUser ''u-1'' ''alice@example.com'' ''Alice'' EMPLOYEE))
   \<and> renew session 86401
        (issue session 0 (SessionUser ''u-1'' ''alice@example.com'' ''Alice'' EMPLOYEE))
       = Inl Expired"
proof -
  let ?c = "issue session 0 (SessionUser ''u-1'' ''alice@example.com'' ''Alice'' EMPLOYEE)"
  have h1: "renewal_permitted session 3601 ?c"
    by (simp add: renewal_permitted_def expired_def issue_def session_def)
  have h2: "3600 \<le> expiresAt ?c \<and> \<not> renewal_permitted session 3600 ?c"
    by (simp add: renewal_permitted_def expired_def issue_def session_def)
  have h3: "expiresAt ?c < 86401"
    by (simp add: issue_def session_def)
  have e: "?c\<lparr>issuedAt := 3601, expiresAt := 3601 + 24 * 60 * 60\<rparr>
           = issue session 3601 (SessionUser ''u-1'' ''alice@example.com'' ''Alice'' EMPLOYEE)"
    by (simp add: issue_def session_def)
  from h1 h2 h3 e
    session_lifetime [where now = 0
      and u = "SessionUser ''u-1'' ''alice@example.com'' ''Alice'' EMPLOYEE"
      and t' = 3601 and c' = ?c and t'' = 3600 and c'' = ?c and tx = 86401 and cx = ?c
      and t = 0 and c = ?c]
  show ?thesis by simp
qed

section \<open>Lockout at the threshold\<close>

text \<open>
  C4. Take an account whose failed-attempt counter is 0, on a store that answers, and
  any nine clock readings \<open>ts\<close>. After the nine \<open>handleFailedLogin\<close> calls
  \<open>isAccountLocked\<close> answers false. After a tenth call at time \<open>t\<close> the counter
  is 10 and the lockout expiry is \<open>t\<close> plus one hour; \<open>isAccountLocked\<close> answers
  true, changing nothing, at every reading before that instant, and false from that
  instant on.
\<close>

theorem lockout_at_threshold:
  assumes "users w em = Some u" and "failedLoginAttempts u = 0" and "faults w = []"
    and "length ts = 9"
  shows "fst (handleFailedLogin_calls ts em w) = Inr ()
    \<and> fst (isAccountLocked n1 n2 em (snd (handleFailedLogin_calls ts em w))) = Inr False
    \<and> fst (handleFailedLogin_calls (ts @ [t]) em w) = Inr ()
    \<and> map_option failedLoginAttempts (users (snd (handleFailedLogin_calls (ts @ [t]) em w)) em)
         = Some 10
    \<and> map_option lockedUntil (users (snd (handleFailedLogin_calls (ts @ [t]) em w)) em)
         = Some (Some (t + 1 * 60 * 60 * 1000))
    \<and> (m1 < t + 1 * 60 * 60 * 1000 \<longrightarrow>
         isAccountLocked m1 m2 em (snd (handleFailedLogin_calls (ts @ [t]) em w))
           = (Inr True, snd (handleFailedLogin_calls (ts @ [t]) em w)))
    \<and> (t + 1 * 60 * 60 * 1000 \<le> k1 \<longrightarrow>
         fst (isAccountLocked k1 k2 em (snd (handleFailedLogin_calls (ts @ [t]) em w)))
           = Inr False)"
proof -
  from assms have ne: "ts \<noteq> []" by auto
  from handleFailedLogin_calls_ok [OF assms(3) assms(1), of ts] assms(2,4) ne
  obtain w9 u9 where
    r9: "handleFailedLogin_calls ts em w = (Inr (), w9)" and f9: "faults w9 = []"
    and u9: "users w9 em = Some u9" and l9: "lockedUntil u9 = None"
    by auto
  from handleFailedLogin_calls_ok [OF assms(3) assms(1), of "ts @ [t]"] assms(2,4)
  obtain w10 u10 where
    r10: "handleFailedLogin_calls (ts @ [t]) em w = (Inr (), w10)" and f10: "faults w10 = []"
    and u10: "users w10 em = Some u10" and c10: "failedLoginAttempts u10 = 10"
    and l10: "lockedUntil u10 = Some (t + 1 * 60 * 60 * 1000)"
    by auto
  have a: "fst (isAccountLocked n1 n2 em w9) = Inr False"
    using f9 u9 l9 by (simp add: isAccountLocked_not_locked)
  have b: "m1 < t + 1 * 60 * 60 * 1000 \<longrightarrow> isAccountLocked m1 m2 em w10 = (Inr True, w10)"
    using f10 u10 l10 by (simp add: isAccountLocked_locked)
  have c: "t + 1 * 60 * 60 * 1000 \<le> k1 \<longrightarrow> fst (isAccountLocked k1 k2 em w10) = Inr False"
    using f10 u10 l10 by (auto intro: isAccountLocked_not_locked)
  from r9 r10 u10 c10 l10 a b c show ?thesis by simp
qed

theorem lockout_at_threshold_witness:
  "fst (isAccountLocked 9500 9501 ''alice@example.com''
          (snd (handleFailedLogin_calls [1000, 2000, 3000, 4000, 5000, 6000, 7000, 8000, 9000]
                  ''alice@example.com'' alice_world))) = Inr False
   \<and> map_option failedLoginAttempts
        (users (snd (handleFailedLogin_calls
                       ([1000, 2000, 3000, 4000, 5000, 6000, 7000, 8000, 9000] @ [10000])
                       ''alice@example.com'' alice_world)) ''alice@example.com'') = Some 10
   \<and> map_option lockedUntil
        (users (snd (handleFailedLogin_calls
                       ([1000, 2000, 3000, 4000, 5000, 6000, 7000, 8000, 9000] @ [10000])
                       ''alice@example.com'' alice_world)) ''alice@example.com'')
        = Some (Some 3610000)
   \<and> fst (isAccountLocked 3609999 3609999 ''alice@example.com''
            (snd (handleFailedLogin_calls
                    ([1000, 2000, 3000, 4000, 5000, 6000, 7000, 8000, 9000] @ [10000])
                    ''alice@example.com'' alice_world))) = Inr True
   \<and> fst (isAccountLocked 3610000 3610000 ''alice@example.com''
            (snd (handleFailedLogin_calls
                    ([1000, 2000, 3000, 4000, 5000, 6000, 7000, 8000, 9000] @ [10000])
                    ''alice@example.com'' alice_world))) = Inr False"
proof -
  have h1: "users alice_world ''alice@example.com'' = Some alice"
    by (simp add: alice_world_def world0_def)
  have h2: "failedLoginAttempts alice = 0"
    by (simp add: alice_def)
  have h3: "faults alice_world = []"
    by (simp add: alice_world_def world0_def)
  have h4: "length [1000, 2000, 3000, 4000, 5000, 6000, 7000, 8000, 9000 :: int] = 9"
    by simp
  have h5: "(3609999 :: int) < 10000 + 1 * 60 * 60 * 1000"
    and h6: "(10000 :: int) + 1 * 60 * 60 * 1000 \<le> 3610000"
    by simp_all
  from lockout_at_threshold [OF h1 h2 h3 h4, of 9500 9501 10000 3609999 3609999 3610000 3610000]
    h5 h6
  show ?thesis
    by (simp del: handleFailedLogin_calls.simps append.simps)
qed

section \<open>The lockout invariant is preserved\<close>

text \<open>
  C5. For each account key \<open>k\<close>, the invariant "lockout expiry set only while the
  counter is at or above the threshold" is preserved by \<open>isAccountLocked\<close>,
  \<open>handleFailedLogin\<close>, \<open>handleSuccessfulLogin\<close> and \<open>authorize\<close>, whatever the
  store does. When \<open>isAccountLocked\<close> returns on an account whose lockout expiry
  is at or before both of its clock readings, it answers false and has reset the
  counter to 0 and cleared the expiry. When \<open>handleSuccessfulLogin\<close> returns, and
  when \<open>authorize\<close> returns a user, the counter is 0 and the expiry is cleared.
\<close>

theorem lockout_invariant:
  "(lockout_inv w k \<longrightarrow>
       lockout_inv (snd (isAccountLocked now1 now2 em w)) k
     \<and> lockout_inv (snd (handleFailedLogin now em w)) k
     \<and> lockout_inv (snd (handleSuccessfulLogin now em w)) k
     \<and> lockout_inv (snd (authorize ext clk credentials req w)) k)
   \<and> (users w' em' = Some u \<and> lockedUntil u = Some t \<and> t \<le> ta \<and> t \<le> tb
        \<and> fst (isAccountLocked ta tb em' w') = Inr b
      \<longrightarrow> \<not> b
          \<and> users (snd (isAccountLocked ta tb em' w')) em'
              = Some (u\<lparr>failedLoginAttempts := 0, lockedUntil := None\<rparr>))
   \<and> (fst (handleSuccessfulLogin now'' em'' w'') = Inr ()
      \<longrightarrow> map_option failedLoginAttempts (users (snd (handleSuccessfulLogin now'' em'' w'')) em'')
            = Some 0
          \<and> map_option lockedUntil (users (snd (handleSuccessfulLogin now'' em'' w'')) em'')
            = Some None)
   \<and> (LoginSchema_safeParse exts creds = Some (ems, pws)
        \<and> fst (authorize exts clks creds reqs ws) = Inr (Some su)
      \<longrightarrow> map_option failedLoginAttempts (users (snd (authorize exts clks creds reqs ws)) ems)
            = Some 0
          \<and> map_option lockedUntil (users (snd (authorize exts clks creds reqs ws)) ems)
            = Some None)"
proof (intro conjI impI)
  assume "lockout_inv w k"
  then show "lockout_inv (snd (isAccountLocked now1 now2 em w)) k"
    and "lockout_inv (snd (handleFailedLogin now em w)) k"
    and "lockout_inv (snd (handleSuccessfulLogin now em w)) k"
    and "lockout_inv (snd (authorize ext clk credentials req w)) k"
    by (simp_all add: isAccountLocked_inv handleFailedLogin_inv handleSuccessfulLogin_inv
          authorize_inv)
next
  assume a: "users w' em' = Some u \<and> lockedUntil u = Some t \<and> t \<le> ta \<and> t \<le> tb
        \<and> fst (isAccountLocked ta tb em' w') = Inr b"
  then show "\<not> b"
    and "users (snd (isAccountLocked ta tb em' w')) em'
              = Some (u\<lparr>failedLoginAttempts := 0, lockedUntil := None\<rparr>)"
    using isAccountLocked_expired [of w' em' u t ta tb b] by simp_all
next
  assume "fst (handleSuccessfulLogin now'' em'' w'') = Inr ()"
  from handleSuccessfulLogin_success [OF this]
  show "map_option failedLoginAttempts (users (snd (handleSuccessfulLogin now'' em'' w'')) em'')
            = Some 0"
    and "map_option lockedUntil (users (snd (handleSuccessfulLogin now'' em'' w'')) em'')
            = Some None"
    by auto
next
  assume a: "LoginSchema_safeParse exts creds = Some (ems, pws)
        \<and> fst (authorize exts clks creds reqs ws) = Inr (Some su)"
  then have "map_option failedLoginAttempts (users (snd (authorize exts clks creds reqs ws)) ems)
            = Some 0
          \<and> map_option lockedUntil (users (snd (authorize exts clks creds reqs ws)) ems)
            = Some None"
    by (simp add: authorize_success_resets)
  then show "map_option failedLoginAttempts (users (snd (authorize exts clks creds reqs ws)) ems)
            = Some 0"
    and "map_option lockedUntil (users (snd (authorize exts clks creds reqs ws)) ems)
            = Some None"
    by simp_all
qed

theorem lockout_invariant_witness:
  "lockout_inv locked_world ''alice@example.com''
   \<and> lockout_inv (snd (isAccountLocked 1001 1002 ''alice@example.com'' locked_world))
        ''alice@example.com''
   \<and> lockout_inv (snd (handleFailedLogin 1003 ''alice@example.com'' locked_world))
        ''alice@example.com''
   \<and> lockout_inv (snd (handleSuccessfulLogin 1003 ''alice@example.com'' locked_world))
        ''alice@example.com''
   \<and> users (snd (isAccountLocked 3600000 3600001 ''alice@example.com'' locked_world))
        ''alice@example.com''
       = Some (alice\<lparr>failedLoginAttempts := 0, lockedUntil := None\<rparr>)
   \<and> map_option failedLoginAttempts
        (users (snd (handleSuccessfulLogin 1004 ''alice@example.com'' locked_world))
           ''alice@example.com'') = Some 0
   \<and> map_option lockedUntil
        (users (snd (authorize sample_ext clock0
                       (Some (Credentials ''Alice@Example.com'' ''secret''))
                       (Some request0) alice_world)) ''alice@example.com'') = Some None"
proof -
  have h1: "lockout_inv locked_world ''alice@example.com''"
    by (simp add: lockout_inv_def locked_world_def world0_def MAX_ATTEMPTS_def)
  have h2: "users locked_world ''alice@example.com''
              = Some (alice\<lparr>failedLoginAttempts := 10, lockedUntil := Some 3600000\<rparr>)
      \<and> lockedUntil (alice\<lparr>failedLoginAttempts := 10, lockedUntil := Some 3600000\<rparr>)
          = Some 3600000
      \<and> (3600000 :: int) \<le> 3600000 \<and> (3600000 :: int) \<le> 3600001"
    by (simp add: locked_world_def world0_def)
  have h3: "fst (isAccountLocked 3600000 3600001 ''alice@example.com'' locked_world) = Inr False"
    by code_simp
  have h4: "fst (handleSuccessfulLogin 1004 ''alice@example.com'' locked_world) = Inr ()"
    by code_simp
  have h5: "LoginSchema_safeParse sample_ext (Some (Credentials ''Alice@Example.com'' ''secret''))
              = Some (''alice@example.com'', ''secret'')"
    by code_simp
  have h6: "fst (authorize sample_ext clock0 (Some (Credentials ''Alice@Example.com'' ''secret''))
                   (Some request0) alice_world)
              = Inr (Some (SessionUser ''u-1'' ''alice@example.com'' ''Alice'' EMPLOYEE))"
    by code_simp
  from h1 h2 h3 h4 h5 h6
    lockout_invariant [where w = locked_world and k = "''alice@example.com''"
      and em = "''alice@example.com''" and ?now1.0 = 1001 and ?now2.0 = 1002 and now = 1003
      and ext = sample_ext and clk = clock0 and credentials = None and req = None
      and w' = locked_world and em' = "''alice@example.com''"
      and u = "alice\<lparr>failedLoginAttempts := 10, lockedUntil := Some 3600000\<rparr>"
      and t = 3600000 and ta = 3600000 and tb = 3600001 and b = False
      and now'' = 1004 and em'' = "''alice@example.com''" and w'' = locked_world
      and exts = sample_ext and creds = "Some (Credentials ''Alice@Example.com'' ''secret'')"
      and ems = "''alice@example.com''" and pws = "''secret''" and clks = clock0
      and reqs = "Some request0" and ws = alice_world
      and su = "SessionUser ''u-1'' ''alice@example.com'' ''Alice'' EMPLOYEE"]
  show ?thesis
    by simp
qed

section \<open>Validation comes before the rate limiter\<close>

text \<open>
  C1, as the claim states it, fails: a request with an empty password, or with a
  malformed e-mail, is rejected without any entry being made for its source in the
  rate-limit store, where an admission check would have recorded one attempt.
\<close>

theorem authorize_rate_limit_first_counterexample:
  "fst (authorize sample_ext clock0 (Some (Credentials ''alice@example.com'' ''''))
          (Some request0) world0) = Inr None
   \<and> rateLimitStore
        (snd (authorize sample_ext clock0 (Some (Credentials ''alice@example.com'' ''''))
                (Some request0) world0)) ''login_10.0.0.1'' = None
   \<and> fst (authorize sample_ext clock0 (Some (Credentials ''not-an-email'' ''secret''))
            (Some request0) world0) = Inr None
   \<and> rateLimitStore
        (snd (authorize sample_ext clock0 (Some (Credentials ''not-an-email'' ''secret''))
                (Some request0) world0)) ''login_10.0.0.1'' = None
   \<and> map_option attempts
        (rateLimitStore (snd (checkRateLimit (tRate clock0) (clientIP (Some request0)) world0))
           ''login_10.0.0.1'') = Some 1"
  by code_simp

text \<open>
  C1, amended. In \<open>authorize\<close> the input-shape validation is performed before the
  rate-limit check: a request that fails validation returns null and leaves the whole
  state, the rate-limit store included, unchanged, so it consumes no attempt. A
  request that passes validation is counted: whatever happens later in the call, the
  rate-limit store it leaves is the one \<open>checkRateLimit\<close> produces for its
  source.
\<close>

theorem authorize_validates_first:
  "(LoginSchema_safeParse ext credentials = None \<longrightarrow>
      authorize ext clk credentials req w = (Inr None, w))
   \<and> (LoginSchema_safeParse ext' credentials' = Some (em, pw) \<longrightarrow>
        rateLimitStore (snd (authorize ext' clk' credentials' req' w')) =
          rateLimitStore (snd (checkRateLimit (tRate clk') (clientIP req') w')))"
  by (simp add: authorize_invalid authorize_rateLimitStore)

theorem authorize_validates_first_witness:
  "authorize sample_ext clock0 (Some (Credentials ''alice@example.com'' ''''))
     (Some request0) world0 = (Inr None, world0)
   \<and> rateLimitStore
        (snd (authorize sample_ext clock0 (Some (Credentials ''Alice@Example.com'' ''wrong''))
                (Some request0) alice_world)) =
       rateLimitStore (snd (checkRateLimit (tRate clock0) (clientIP (Some request0)) alice_world))"
proof -
  have h1: "LoginSchema_safeParse sample_ext (Some (Credentials ''alice@example.com'' '''')) = None"
    by code_simp
  have h2: "LoginSchema_safeParse sample_ext (Some (Credentials ''Alice@Example.com'' ''wrong''))
              = Some (''alice@example.com'', ''wrong'')"
    by code_simp
  from h1 h2
    authorize_validates_first [where ext = sample_ext
      and credentials = "Some (Credentials ''alice@example.com'' '''')"
      and clk = clock0 and req = "Some request0" and w = world0
      and ext' = sample_ext and credentials' = "Some (Credentials ''Alice@Example.com'' ''wrong'')"
      and em = "''alice@example.com''" and pw = "''wrong''"
      and clk' = clock0 and req' = "Some request0" and w' = alice_world]
  show ?thesis by simp
qed

section \<open>Every failure is the same null\<close>

text \<open>
  C2, as the claim states it, fails: invalid input, an exhausted rate limit, a wrong
  password, a locked account and a storage failure all give the same return value,
  null; the storage failure raised inside the \<open>try\<close> block does not reach the
  caller.
\<close>

theorem authorize_distinct_failures_counterexample:
  "fst (authorize sample_ext clock0 (Some (Credentials ''alice@example.com'' ''''))
          (Some request0) alice_world) = Inr None
   \<and> fst (authorize sample_ext clock0 (Some (Credentials ''alice@example.com'' ''secret''))
            (Some request0) (alice_world\<lparr>rateLimitStore := rateLimitStore spent_world\<rparr>))
       = Inr None
   \<and> fst (authorize sample_ext clock0 (Some (Credentials ''alice@example.com'' ''wrong''))
            (Some request0) alice_world) = Inr None
   \<and> fst (authorize sample_ext clock0 (Some (Credentials ''alice@example.com'' ''secret''))
            (Some request0) locked_world) = Inr None
   \<and> fst (authorize_try sample_ext clock0 (Some (Credentials ''alice@example.com'' ''secret''))
            (Some request0) faulty_world) = Inl StoreUnavailable
   \<and> fst (authorize sample_ext clock0 (Some (Credentials ''alice@example.com'' ''secret''))
            (Some request0) faulty_world) = Inr None"
  by code_simp

text \<open>
  C2, amended. \<open>authorize\<close> never lets an exception reach its caller. The store
  calls it makes use up a front part of the fault schedule, and a storage failure at
  any of them is caught: whenever one of the store calls made during the call fails,
  \<open>authorize\<close> returns null and has logged that failure with \<open>console.error\<close>, and
  it logs a storage failure in no other case. In general an exception leaving the
  \<open>try\<close> block is logged and turned into the return value null. A user is returned
  only when the input is valid, the rate limiter admits the request, the account
  exists, is not locked and the password matches; so each expected failure is the
  normal return value null as well.
\<close>

theorem authorize_failures_are_null:
  "fst (authorize ext clk credentials req w) \<noteq> Inl e
   \<and> faults w = consumed w (snd (authorize ext clk credentials req w))
                   @ faults (snd (authorize ext clk credentials req w))
   \<and> (True \<in> set (consumed w (snd (authorize ext clk credentials req w))))
       = (ConsoleError StoreUnavailable
            \<in> set (new_events w (snd (authorize ext clk credentials req w))))
   \<and> (True \<in> set (consumed v (snd (authorize extv clkv credentialsv reqv v))) \<longrightarrow>
        fst (authorize extv clkv credentialsv reqv v) = Inr None
        \<and> ConsoleError StoreUnavailable
            \<in> set (new_events v (snd (authorize extv clkv credentialsv reqv v))))
   \<and> (fst (authorize_try ext' clk' credentials' req' w') = Inl e' \<longrightarrow>
        authorize ext' clk' credentials' req' w' =
          (Inr None, emit (ConsoleError e') (snd (authorize_try ext' clk' credentials' req' w'))))
   \<and> (fst (authorize ext'' clk'' credentials'' req'' w'') = Inr (Some su) \<longrightarrow>
        (\<exists>em pw u. LoginSchema_safeParse ext'' credentials'' = Some (em, pw)
           \<and> fst (checkRateLimit (tRate clk'') (clientIP req'') w'')
           \<and> users w'' em = Some u
           \<and> \<not> (\<exists>t. lockedUntil u = Some t \<and> tLock1 clk'' < t)
           \<and> bcrypt_compare ext'' pw (passwordHash u)))"
proof -
  note s = authorize_schedule [of w ext clk credentials req, unfolded schedule_used_def]
  note sv = authorize_schedule [of v extv clkv credentialsv reqv, unfolded schedule_used_def]
  from s sv
    authorize_never_raises [of ext clk credentials req w e]
    authorize_catch [of ext' clk' credentials' req' w' e']
    authorize_success [of ext'' clk'' credentials'' req'' w'' su]
  show ?thesis by blast
qed

theorem authorize_failures_are_null_witness:
  "consumed late_fault_world
     (snd (authorize sample_ext clock0 (Some (Credentials ''alice@example.com'' ''wrong''))
             (Some request0) late_fault_world)) = [False, False, True]
   \<and> fst (authorize sample_ext clock0 (Some (Credentials ''alice@example.com'' ''wrong''))
            (Some request0) late_fault_world) = Inr None
   \<and> ConsoleError StoreUnavailable
        \<in> set (new_events late_fault_world
                 (snd (authorize sample_ext clock0
                         (Some (Credentials ''alice@example.com'' ''wrong''))
                         (Some request0) late_fault_world)))
   \<and> authorize sample_ext clock0 (Some (Credentials ''alice@example.com'' ''secret''))
       (Some request0) faulty_world =
       (Inr None,
        emit (ConsoleError StoreUnavailable)
          (snd (authorize_try sample_ext clock0
                  (Some (Credentials ''alice@example.com'' ''secret''))
                  (Some request0) faulty_world)))
   \<and> (\<exists>em pw u.
         LoginSchema_safeParse sample_ext (Some (Credentials ''alice@example.com'' ''secret''))
           = Some (em, pw)
         \<and> fst (checkRateLimit (tRate clock0) (clientIP (Some request0)) alice_world)
         \<and> users alice_world em = Some u
         \<and> \<not> (\<exists>t. lockedUntil u = Some t \<and> tLock1 clock0 < t)
         \<and> bcrypt_compare sample_ext pw (passwordHash u))"
proof -
  have h0: "consumed late_fault_world
     (snd (authorize sample_ext clock0 (Some (Credentials ''alice@example.com'' ''wrong''))
             (Some request0) late_fault_world)) = [False, False, True]"
    by code_simp
  have h1: "fst (authorize_try sample_ext clock0
                   (Some (Credentials ''alice@example.com'' ''secret''))
                   (Some request0) faulty_world) = Inl StoreUnavailable"
    by code_simp
  have h2: "fst (authorize sample_ext clock0 (Some (Credentials ''alice@example.com'' ''secret''))
                   (Some request0) alice_world)
              = Inr (Some (SessionUser ''u-1'' ''alice@example.com'' ''Alice'' EMPLOYEE))"
    by code_simp
  from h0 h1 h2
    authorize_failures_are_null [where v = late_fault_world and extv = sample_ext
      and clkv = clock0
      and credentialsv = "Some (Credentials ''alice@example.com'' ''wrong'')"
      and reqv = "Some request0"
      and ext' = sample_ext and clk' = clock0
      and credentials' = "Some (Credentials ''alice@example.com'' ''secret'')"
      and req' = "Some request0" and w' = faulty_world and e' = StoreUnavailable
      and ext'' = sample_ext and clk'' = clock0
      and credentials'' = "Some (Credentials ''alice@example.com'' ''secret'')"
      and req'' = "Some request0" and w'' = alice_world
      and su = "SessionUser ''u-1'' ''alice@example.com'' ''Alice'' EMPLOYEE"
      and ext = sample_ext and clk = clock0 and credentials = None and req = None
      and w = world0 and e = StoreUnavailable]
  show ?thesis by simp
qed

section \<open>A locked account\<close>

text \<open>
  C6, as the claim states it, fails: on a locked account with the correct password
  \<open>authorize\<close> returns null, the very value it returns for a wrong password on an
  unlocked account; no return value says that the account is locked.
\<close>

theorem authorize_locked_is_not_distinct_counterexample:
  "fst (authorize sample_ext clock0 (Some (Credentials ''alice@example.com'' ''secret''))
          (Some request0) locked_world)
     = fst (authorize sample_ext clock0 (Some (Credentials ''alice@example.com'' ''wrong''))
              (Some request0) alice_world)
   \<and> fst (authorize sample_ext clock0 (Some (Credentials ''alice@example.com'' ''secret''))
            (Some request0) locked_world) = Inr None
   \<and> bcrypt_compare sample_ext ''secret'' (passwordHash alice)
   \<and> \<not> bcrypt_compare sample_ext ''wrong'' (passwordHash alice)"
  by code_simp

text \<open>
  C6, amended. When the request passes validation and the account stored under its
  e-mail is locked (lockout expiry set and later than the clock reading of the lockout
  check), \<open>authorize\<close> returns the failure value null, the same value a wrong
  password on any existing account gives, calls \<open>bcrypt.compare\<close> not once and
  leaves every account row, so the failed-attempt counter, unchanged; this holds for
  every password, the correct one included, and whatever the rate limiter and the
  store do. When the rate limiter admits the request and the store answers, the call
  ends on the locked-account branch: its only effect is the warning of that branch.
\<close>

theorem authorize_locked_account:
  assumes "LoginSchema_safeParse ext credentials = Some (em, pw)"
    and "users w em = Some u" and "lockedUntil u = Some t" and "tLock1 clk < t"
  shows "fst (authorize ext clk credentials req w) = Inr None
    \<and> compares (trace (snd (authorize ext clk credentials req w))) = compares (trace w)
    \<and> users (snd (authorize ext clk credentials req w)) = users w
    \<and> (fst (checkRateLimit (tRate clk) (clientIP req) w) \<and> faults w = [] \<longrightarrow>
         trace (snd (authorize ext clk credentials req w)) =
           trace w @ [ConsoleWarn (''Login attempt on locked account: '' @ em)])
    \<and> (LoginSchema_safeParse ext' credentials' = Some (em', pw') \<and> users w' em' = Some u'
         \<and> \<not> bcrypt_compare ext' pw' (passwordHash u') \<longrightarrow>
         fst (authorize ext' clk' credentials' req' w')
           = fst (authorize ext clk credentials req w))"
proof -
  let ?w1 = "snd (checkRateLimit (tRate clk) (clientIP req) w)"
  have u1: "users ?w1 em = Some u"
    using assms(2) by simp
  note lk = isAccountLocked_when_locked [OF u1 assms(3) assms(4), of "tLock2 clk"]
  have ok: "faults w = [] \<Longrightarrow>
      isAccountLocked (tLock1 clk) (tLock2 clk) em ?w1 = (Inr True, ?w1)"
    using u1 assms(3) assms(4) by (simp add: isAccountLocked_locked)
  have main: "fst (authorize ext clk credentials req w) = Inr None
    \<and> compares (trace (snd (authorize ext clk credentials req w))) = compares (trace w)
    \<and> users (snd (authorize ext clk credentials req w)) = users w
    \<and> (fst (checkRateLimit (tRate clk) (clientIP req) w) \<and> faults w = [] \<longrightarrow>
         trace (snd (authorize ext clk credentials req w)) =
           trace w @ [ConsoleWarn (''Login attempt on locked account: '' @ em)])"
    by (rule authorize_paths [where R = "\<lambda>x. fst x = Inr None
          \<and> compares (trace (snd x)) = compares (trace w)
          \<and> users (snd x) = users w
          \<and> (fst (checkRateLimit (tRate clk) (clientIP req) w) \<and> faults w = [] \<longrightarrow>
               trace (snd x) = trace w @ [ConsoleWarn (''Login attempt on locked account: '' @ em)])"])
       (use assms(1) lk ok in \<open>auto\<close>)
  have same: "LoginSchema_safeParse ext' credentials' = Some (em', pw') \<and> users w' em' = Some u'
         \<and> \<not> bcrypt_compare ext' pw' (passwordHash u') \<longrightarrow>
         fst (authorize ext' clk' credentials' req' w')
           = fst (authorize ext clk credentials req w)"
    using main authorize_wrong_password [of ext' credentials' em' pw' w' u' clk' req']
    by simp
  from main same show ?thesis by simp
qed

theorem authorize_locked_account_witness:
  "bcrypt_compare sample_ext ''secret'' (passwordHash alice)
   \<and> fst (authorize sample_ext clock0 (Some (Credentials ''alice@example.com'' ''secret''))
            (Some request0) locked_world) = Inr None
   \<and> compares (trace (snd (authorize sample_ext clock0
                              (Some (Credentials ''alice@example.com'' ''secret''))
                              (Some request0) locked_world))) = 0
   \<and> users (snd (authorize sample_ext clock0
                    (Some (Credentials ''alice@example.com'' ''secret''))
                    (Some request0) locked_world)) = users locked_world
   \<and> trace (snd (authorize sample_ext clock0
                    (Some (Credentials ''alice@example.com'' ''secret''))
                    (Some request0) locked_world))
       = [ConsoleWarn ''Login attempt on locked account: alice@example.com'']
   \<and> fst (authorize sample_ext clock0 (Some (Credentials ''alice@example.com'' ''wrong''))
            (Some request0) alice_world)
       = fst (authorize sample_ext clock0 (Some (Credentials ''alice@example.com'' ''secret''))
                (Some request0) locked_world)"
proof -
  have h0: "bcrypt_compare sample_ext ''secret'' (passwordHash alice)"
    by (simp add: sample_ext_def alice_def)
  have h1: "LoginSchema_safeParse sample_ext (Some (Credentials ''alice@example.com'' ''secret''))
              = Some (''alice@example.com'', ''secret'')"
    by code_simp
  have h2: "users locked_world ''alice@example.com''
              = Some (alice\<lparr>failedLoginAttempts := 10, lockedUntil := Some 3600000\<rparr>)"
    by (simp add: locked_world_def world0_def)
  have h3: "lockedUntil (alice\<lparr>failedLoginAttempts := 10, lockedUntil := Some 3600000\<rparr>)
              = Some 3600000"
    by simp
  have h4: "tLock1 clock0 < 3600000"
    by (simp add: clock0_def)
  have h5: "fst (checkRateLimit (tRate clock0) (clientIP (Some request0)) locked_world)"
    by code_simp
  have h6: "faults locked_world = []" "trace locked_world = []"
    by (simp_all add: locked_world_def world0_def)
  have h7: "LoginSchema_safeParse sample_ext (Some (Credentials ''alice@example.com'' ''wrong''))
              = Some (''alice@example.com'', ''wrong'')
            \<and> users alice_world ''alice@example.com'' = Some alice
            \<and> \<not> bcrypt_compare sample_ext ''wrong'' (passwordHash alice)"
    by (simp add: alice_world_def world0_def sample_ext_def alice_def) code_simp
  from h0 h5 h6 h7
    authorize_locked_account [OF h1 h2 h3 h4, where req = "Some request0"
      and ext' = sample_ext
      and credentials' = "Some (Credentials ''alice@example.com'' ''wrong'')"
      and em' = "''alice@example.com''" and pw' = "''wrong''" and w' = alice_world
      and u' = alice and clk' = clock0 and req' = "Some request0"]
  show ?thesis by (simp add: compares_def)
qed

section \<open>An unknown e-mail\<close>

text \<open>
  C7. When the request passes validation and no account is stored under its e-mail,
  \<open>authorize\<close> returns null, never calls \<open>bcrypt.compare\<close> and writes no account
  row, whatever the rate limiter and the store do; when the rate limiter admits the
  request and the store answers, its only effect is the fixed wait of 100
  milliseconds. A wrong password for an existing account gives the same return value
  null; on an unlocked account, with the request admitted and the store answering,
  that path does persist: it calls \<open>bcrypt.compare\<close> once and raises the counter
  by one. \<open>handleFailedLogin\<close> writes no row when the user is absent, and is the
  identity on the state when the store answers.
\<close>

theorem authorize_unknown_email:
  "(LoginSchema_safeParse ext credentials = Some (em, pw) \<and> users w em = None \<longrightarrow>
        fst (authorize ext clk credentials req w) = Inr None
      \<and> users (snd (authorize ext clk credentials req w)) = users w
      \<and> compares (trace (snd (authorize ext clk credentials req w))) = compares (trace w)
      \<and> (fst (checkRateLimit (tRate clk) (clientIP req) w) \<and> faults w = [] \<longrightarrow>
           trace (snd (authorize ext clk credentials req w)) = trace w @ [Delay 100]))
   \<and> (LoginSchema_safeParse ext' credentials' = Some (em', pw') \<and> users w' em' = Some u
        \<and> \<not> bcrypt_compare ext' pw' (passwordHash u) \<longrightarrow>
        fst (authorize ext' clk' credentials' req' w') = Inr None
      \<and> (lockedUntil u = None \<and> fst (checkRateLimit (tRate clk') (clientIP req') w')
           \<and> faults w' = [] \<longrightarrow>
           map_option failedLoginAttempts (users (snd (authorize ext' clk' credentials' req' w')) em')
             = Some (failedLoginAttempts u + 1)
         \<and> trace (snd (authorize ext' clk' credentials' req' w')) =
             trace w' @ [BcryptCompare pw' (passwordHash u)]))
   \<and> (users w'' em'' = None \<longrightarrow>
        users (snd (handleFailedLogin now em'' w'')) = users w''
      \<and> (faults w'' = [] \<longrightarrow> handleFailedLogin now em'' w'' = (Inr (), w'')))"
proof (intro conjI impI)
  assume a: "LoginSchema_safeParse ext credentials = Some (em, pw) \<and> users w em = None"
  then have p: "LoginSchema_safeParse ext credentials = Some (em, pw)" and n: "users w em = None"
    by simp_all
  note r = authorize_unknown [OF p n, of clk req]
  from r show "fst (authorize ext clk credentials req w) = Inr None" by simp
  from r show "users (snd (authorize ext clk credentials req w)) = users w" by simp
  from r show "compares (trace (snd (authorize ext clk credentials req w))) = compares (trace w)"
    by simp
  assume "fst (checkRateLimit (tRate clk) (clientIP req) w) \<and> faults w = []"
  with r show "trace (snd (authorize ext clk credentials req w)) = trace w @ [Delay 100]"
    by simp
next
  assume a: "LoginSchema_safeParse ext' credentials' = Some (em', pw') \<and> users w' em' = Some u
        \<and> \<not> bcrypt_compare ext' pw' (passwordHash u)"
  then have p: "LoginSchema_safeParse ext' credentials' = Some (em', pw')"
    and s: "users w' em' = Some u" and bad: "\<not> bcrypt_compare ext' pw' (passwordHash u)"
    by simp_all
  show "fst (authorize ext' clk' credentials' req' w') = Inr None"
    by (rule authorize_wrong_password [OF p s bad])
  assume b: "lockedUntil u = None \<and> fst (checkRateLimit (tRate clk') (clientIP req') w')
           \<and> faults w' = []"
  then have l: "lockedUntil u = None"
    and adm: "fst (checkRateLimit (tRate clk') (clientIP req') w')" and f: "faults w' = []"
    by simp_all
  note r = authorize_wrong_password_unlocked [OF p s bad l adm f]
  from r show "map_option failedLoginAttempts
        (users (snd (authorize ext' clk' credentials' req' w')) em')
      = Some (failedLoginAttempts u + 1)"
    by simp
  from r show "trace (snd (authorize ext' clk' credentials' req' w')) =
      trace w' @ [BcryptCompare pw' (passwordHash u)]"
    by simp
next
  assume n: "users w'' em'' = None"
  then show "users (snd (handleFailedLogin now em'' w'')) = users w''"
    by (rule handleFailedLogin_when_absent)
  assume "faults w'' = []"
  with n show "handleFailedLogin now em'' w'' = (Inr (), w'')"
    by (simp add: handleFailedLogin_def findUnique_ok)
qed

theorem authorize_unknown_email_witness:
  "fst (authorize sample_ext clock0 (Some (Credentials ''bob@example.com'' ''secret''))
          (Some request0) alice_world) = Inr None
   \<and> users (snd (authorize sample_ext clock0 (Some (Credentials ''bob@example.com'' ''secret''))
                    (Some request0) alice_world)) = users alice_world
   \<and> trace (snd (authorize sample_ext clock0 (Some (Credentials ''bob@example.com'' ''secret''))
                    (Some request0) alice_world)) = [Delay 100]
   \<and> fst (authorize sample_ext clock0 (Some (Credentials ''alice@example.com'' ''wrong''))
            (Some request0) alice_world) = Inr None
   \<and> map_option failedLoginAttempts
        (users (snd (authorize sample_ext clock0
                       (Some (Credentials ''alice@example.com'' ''wrong''))
                       (Some request0) alice_world)) ''alice@example.com'') = Some 1
   \<and> trace (snd (authorize sample_ext clock0 (Some (Credentials ''alice@example.com'' ''wrong''))
                    (Some request0) alice_world)) = [BcryptCompare ''wrong'' ''hash:secret'']
   \<and> handleFailedLogin 1003 ''bob@example.com'' alice_world = (Inr (), alice_world)"
proof -
  have h1: "LoginSchema_safeParse sample_ext (Some (Credentials ''bob@example.com'' ''secret''))
              = Some (''bob@example.com'', ''secret'')
            \<and> users alice_world ''bob@example.com'' = None"
    by (simp add: alice_world_def world0_def) code_simp
  have h2: "fst (checkRateLimit (tRate clock0) (clientIP (Some request0)) alice_world)
            \<and> faults alice_world = []"
    by (simp add: alice_world_def world0_def) code_simp
  have h3: "LoginSchema_safeParse sample_ext (Some (Credentials ''alice@example.com'' ''wrong''))
              = Some (''alice@example.com'', ''wrong'')
            \<and> users alice_world ''alice@example.com'' = Some alice
            \<and> \<not> bcrypt_compare sample_ext ''wrong'' (passwordHash alice)"
    by (simp add: alice_world_def world0_def sample_ext_def alice_def) code_simp
  have h4: "lockedUntil alice = None" "failedLoginAttempts alice = 0"
    "passwordHash alice = ''hash:secret''" "trace alice_world = []"
    by (simp_all add: alice_def alice_world_def world0_def)
  from h1 h2 h3 h4
    authorize_unknown_email [where ext = sample_ext
      and credentials = "Some (Credentials ''bob@example.com'' ''secret'')"
      and em = "''bob@example.com''" and pw = "''secret''" and w = alice_world
      and clk = clock0 and req = "Some request0"
      and ext' = sample_ext
      and credentials' = "Some (Credentials ''alice@example.com'' ''wrong'')"
      and em' = "''alice@example.com''" and pw' = "''wrong''" and w' = alice_world
      and u = alice and clk' = clock0 and req' = "Some request0"
      and w'' = alice_world and em'' = "''bob@example.com''" and now = 1003]
  show ?thesis by simp
qed

end
